theory Spec2Isabelle
  imports Complex_Main "HOL-Library.Word" "HOL-Library.Signed_Division"
begin

unbundle bit_operations_syntax

section \<open>The thermal printer driver (Pos_Printer.cpp)\<close>

text \<open>
  A shallow embedding of the driver class \<open>Pos_Printer\<close>. Every method becomes a function
  from the driver state to the driver state, or to an option or a sum where the method
  may not return or may run into undefined behaviour. The byte channel \<open>stream\<close> is the list
  \<open>out\<close> of the bytes written so far, oldest first; \<open>delay(ms)\<close> adds to \<open>waited\<close>.
  A \<open>uint8_t\<close> is an \<open>8 word\<close>, an \<open>unsigned long\<close> a \<open>32 word\<close> (the width on
  the Arduino targets of the library); a C \<open>int\<close> is an integer, and passing one to a
  \<open>uint8_t\<close> parameter is \<open>word_of_int\<close> (reduction modulo 256). In the bitmap
  commands, which compute and count in \<open>int\<close>, every \<open>int\<close> result is checked against
  the range of the type and an overflow is a fault; elsewhere an \<open>int\<close> is an argument
  that is compared and passed on (\<open>setLineHeight\<close> subtracts 24 from a value of at
  least 24), and the arguments themselves are integers.
\<close>

subsection \<open>Build-time configuration\<close>

text \<open>
  The header \<open>Pos_Printer.h\<close> is not among the sources. The macros it defines and the
  source only uses are parameters of the model: \<open>PRINTER_FIRMWARE\<close> (compared with 264
  and 268), whether \<open>DENMARK\<close> is defined, and the two constants \<open>CHARSET_DENMARK1\<close>
  and \<open>CODEPAGE_ISO_8859_1\<close> that \<open>setDefault\<close> passes on. The target decides
  the width of \<open>int\<close>: \<open>INT_MAX\<close> is 32767 on the 8-bit boards and 2147483647 on
  the 32-bit ones, and \<open>INT_MIN\<close> is \<open>- INT_MAX - 1\<close>.
\<close>

record config =
  PRINTER_FIRMWARE :: nat
  DENMARK :: bool
  CHARSET_DENMARK1 :: "8 word"
  CODEPAGE_ISO_8859_1 :: "8 word"
  INT_MAX :: int

text \<open>
  What a call can end in besides returning: an \<open>int\<close> computation that leaves the range
  of the type, or a division by zero. Both are undefined behaviour in the source.
\<close>

datatype fault = SignedOverflow | DivisionByZero

definition in_int :: "config \<Rightarrow> int \<Rightarrow> bool" where
  "in_int cfg x \<longleftrightarrow> - INT_MAX cfg - 1 \<le> x \<and> x \<le> INT_MAX cfg"

text \<open>
  The conversion of an unsigned value (a \<open>uint16_t\<close>, the \<open>size_t\<close> of
  \<open>strlen\<close>) to \<open>int\<close>: the value itself where it fits, and the value reduced into
  the range of \<open>int\<close> modulo its size where it does not.
\<close>

definition to_int :: "config \<Rightarrow> int \<Rightarrow> int" where
  "to_int cfg v =
    (if in_int cfg v then v
     else (v + INT_MAX cfg + 1) mod (2 * (INT_MAX cfg + 1)) - (INT_MAX cfg + 1))"

subsection \<open>Driver state\<close>

text \<open>
  Modelled from the spec: the class declaration (\<open>Pos_Printer.h\<close>) is missing, so the
  types of the member variables are those of the spec's data model (section 3):
  \<open>column\<close>, \<open>maxColumn\<close>, \<open>charHeight\<close>, \<open>lineSpacing\<close>, \<open>barcodeHeight\<close> and
  \<open>maxChunkHeight\<close> are integers, the print mode is a set of flag bits (the byte that
  \<open>writePrintMode\<close> sends), \<open>prevByte\<close> is a character, the two dot times are
  microsecond counts (\<open>unsigned long\<close> in \<open>setTimes\<close>), \<open>dtrEnabled\<close> is a boolean.
  \<open>dtrPin\<close> has the type of the constructor's argument.
\<close>

record printer =
  out :: "8 word list"
  waited :: nat
  printMode :: "8 word"
  prevByte :: "8 word"
  column :: int
  maxColumn :: int
  charHeight :: int
  lineSpacing :: int
  barcodeHeight :: int
  maxChunkHeight :: int
  dotPrintTime :: "32 word"
  dotFeedTime :: "32 word"
  dtrPin :: "8 word"
  dtrEnabled :: bool

subsection \<open>Constants of the source\<close>

definition BAUDRATE :: int where
  "BAUDRATE = 19200"

definition ASCII_TAB :: "8 word" where "ASCII_TAB = 9"
definition ASCII_LF :: "8 word" where "ASCII_LF = 10"
definition ASCII_FF :: "8 word" where "ASCII_FF = 12"
definition ASCII_CR :: "8 word" where "ASCII_CR = 13"
definition ASCII_DC2 :: "8 word" where "ASCII_DC2 = 18"
definition ASCII_ESC :: "8 word" where "ASCII_ESC = 27"
definition ASCII_FS :: "8 word" where "ASCII_FS = 28"
definition ASCII_GS :: "8 word" where "ASCII_GS = 29"

text \<open>\<open>BYTE_TIME\<close>: microseconds to issue one byte, 11 bit times, rounded.\<close>

definition BYTE_TIME :: int where
  "BYTE_TIME = ((11 * 1000000) + (BAUDRATE div 2)) div BAUDRATE"

text \<open>A character literal of the source, as the byte it denotes.\<close>

abbreviation lit :: "char \<Rightarrow> 8 word" where
  "lit c \<equiv> of_char c"

subsection \<open>Raw output\<close>

text \<open>The overloads of \<open>writeBytes\<close> write their arguments to the stream, in order.\<close>

definition writeBytes :: "8 word list \<Rightarrow> printer \<Rightarrow> printer" where
  "writeBytes bs s = s\<lparr>out := out s @ bs\<rparr>"

text \<open>\<open>delay(ms)\<close> blocks for the given number of milliseconds.\<close>

definition delay :: "nat \<Rightarrow> printer \<Rightarrow> printer" where
  "delay ms s = s\<lparr>waited := waited s + ms\<rparr>"

subsection \<open>The per-character write path\<close>

text \<open>The substitutions made when \<open>DENMARK\<close> is defined: seven tests in sequence.\<close>

definition denmark_remap :: "8 word \<Rightarrow> 8 word" where
  "denmark_remap c0 =
    (let c1 = (if c0 = 0xC3 then 0x00 else c0);
         c2 = (if c1 = 0xA5 then lit CHR ''}'' else c1);
         c3 = (if c2 = 0xB8 then lit CHR ''|'' else c2);
         c4 = (if c3 = 0xA6 then lit CHR ''{'' else c3);
         c5 = (if c4 = 0x85 then lit CHR '']'' else c4);
         c6 = (if c5 = 0x98 then 0x5C else c5);
         c7 = (if c6 = 0x86 then lit CHR ''['' else c6)
     in c7)"

text \<open>The byte that \<open>write\<close> hands to the stream for the argument \<open>c\<close>.\<close>

definition written_byte :: "config \<Rightarrow> 8 word \<Rightarrow> 8 word" where
  "written_byte cfg c = (if DENMARK cfg then denmark_remap c else c)"

text \<open>
  \<open>Pos_Printer::write\<close>, here \<open>write_byte\<close>. The source computes the pacing delay
  in the local \<open>unsigned long d\<close> and drops it; \<open>write_d\<close> returns that local
  (\<open>None\<close> when the body is skipped and no \<open>d\<close> exists) next to the new state.
  The sums and products are taken in \<open>unsigned long\<close>, as the usual arithmetic
  conversions make them.
\<close>

definition write_d :: "config \<Rightarrow> 8 word \<Rightarrow> printer \<Rightarrow> 32 word option \<times> printer" where
  "write_d cfg c0 s =
    (if c0 \<noteq> 0x13 then
       let c = written_byte cfg c0;
           s1 = s\<lparr>out := out s @ [c]\<rparr>;
           d = (word_of_int BYTE_TIME :: 32 word)
       in if c = lit CHR 0x0A \<or> column s1 = maxColumn s1 then
            (Some (d + (if prevByte s1 = lit CHR 0x0A
                        then word_of_int (charHeight s1 + lineSpacing s1) * dotFeedTime s1
                        else word_of_int (charHeight s1) * dotPrintTime s1
                             + word_of_int (lineSpacing s1) * dotFeedTime s1)),
             s1\<lparr>column := 0, prevByte := lit CHR 0x0A\<rparr>)
          else
            (Some d, s1\<lparr>column := column s1 + 1, prevByte := c\<rparr>)
     else (None, s))"

definition write_byte :: "config \<Rightarrow> 8 word \<Rightarrow> printer \<Rightarrow> printer" where
  "write_byte cfg c s = snd (write_d cfg c s)"

text \<open>The value \<open>write\<close> returns: always 1.\<close>

definition write_result :: "config \<Rightarrow> 8 word \<Rightarrow> printer \<Rightarrow> nat" where
  "write_result cfg c s = 1"

subsection \<open>C library functions the source calls\<close>

text \<open>\<open>toupper\<close> in the C locale, on the byte of a \<open>char\<close>.\<close>

definition toupper :: "8 word \<Rightarrow> 8 word" where
  "toupper c = (if lit CHR ''a'' \<le> c \<and> c \<le> lit CHR ''z'' then c - 32 else c)"

text \<open>
  A \<open>char *\<close> argument is the list of bytes at the pointer. The string it denotes ends
  before the first NUL, and \<open>strlen\<close> is the length of that string.
\<close>

definition c_str :: "8 word list \<Rightarrow> 8 word list" where
  "c_str text = takeWhile (\<lambda>b. b \<noteq> 0) text"

definition strlen :: "8 word list \<Rightarrow> int" where
  "strlen text = int (length (c_str text))"

text \<open>
  \<open>Print::print\<close> of the Arduino core hands each character of a string to \<open>write\<close>,
  and \<open>println\<close> adds carriage return and line feed.
\<close>

definition print_str :: "config \<Rightarrow> 8 word list \<Rightarrow> printer \<Rightarrow> printer" where
  "print_str cfg text s = fold (write_byte cfg) text s"

definition println :: "config \<Rightarrow> 8 word list \<Rightarrow> printer \<Rightarrow> printer" where
  "println cfg text s = print_str cfg [ASCII_CR, ASCII_LF] (print_str cfg text s)"

subsection \<open>Construction, timing, reset\<close>

text \<open>
  The constructor stores the stream and the DTR pin and clears \<open>dtrEnabled\<close>; every
  other member keeps whatever the object's memory holds (\<open>mem\<close>).
\<close>

definition Pos_Printer :: "8 word \<Rightarrow> printer \<Rightarrow> printer" where
  "Pos_Printer dtr mem = mem\<lparr>out := [], waited := 0, dtrPin := dtr, dtrEnabled := False\<rparr>"

definition setTimes :: "32 word \<Rightarrow> 32 word \<Rightarrow> printer \<Rightarrow> printer" where
  "setTimes p f s = s\<lparr>dotPrintTime := p, dotFeedTime := f\<rparr>"

definition reset :: "config \<Rightarrow> printer \<Rightarrow> printer" where
  "reset cfg s =
    (let s1 = writeBytes [ASCII_ESC, lit CHR ''@''] s;
         s2 = s1\<lparr>prevByte := lit CHR 0x0A, column := 0, maxColumn := 32, charHeight := 24,
                 lineSpacing := 6, barcodeHeight := 50\<rparr>
     in if PRINTER_FIRMWARE cfg \<ge> 264
        then writeBytes [4, 8, 12, 16] (writeBytes [ASCII_ESC, lit CHR ''D''] s2)
        else s2)"

definition testPage :: "printer \<Rightarrow> printer" where
  "testPage s = writeBytes [ASCII_DC2, lit CHR ''T''] s"

definition setBarcodeHeight :: "8 word \<Rightarrow> printer \<Rightarrow> printer" where
  "setBarcodeHeight val0 s =
    (let val = (if val0 < 1 then 1 else val0);
         s1 = s\<lparr>barcodeHeight := uint val\<rparr>
     in writeBytes [ASCII_GS, lit CHR ''h'', val] s1)"

subsection \<open>Character commands\<close>

definition INVERSE_MASK :: "8 word" where "INVERSE_MASK = push_bit 1 1"
definition UPDOWN_MASK :: "8 word" where "UPDOWN_MASK = push_bit 2 1"
definition BOLD_MASK :: "8 word" where "BOLD_MASK = push_bit 3 1"
definition DOUBLE_HEIGHT_MASK :: "8 word" where "DOUBLE_HEIGHT_MASK = push_bit 4 1"
definition DOUBLE_WIDTH_MASK :: "8 word" where "DOUBLE_WIDTH_MASK = push_bit 5 1"
definition STRIKE_MASK :: "8 word" where "STRIKE_MASK = push_bit 6 1"

definition writePrintMode :: "printer \<Rightarrow> printer" where
  "writePrintMode s = writeBytes [ASCII_ESC, lit CHR ''!'', printMode s] s"

text \<open>The two assignments that end \<open>setPrintMode\<close> and \<open>unsetPrintMode\<close>.\<close>

definition adjust_size :: "printer \<Rightarrow> printer" where
  "adjust_size s =
    s\<lparr>charHeight := (if printMode s AND DOUBLE_HEIGHT_MASK \<noteq> 0 then 48 else 24),
      maxColumn := (if printMode s AND DOUBLE_WIDTH_MASK \<noteq> 0 then 16 else 32)\<rparr>"

definition setPrintMode :: "8 word \<Rightarrow> printer \<Rightarrow> printer" where
  "setPrintMode msk s = adjust_size (writePrintMode (s\<lparr>printMode := printMode s OR msk\<rparr>))"

definition unsetPrintMode :: "8 word \<Rightarrow> printer \<Rightarrow> printer" where
  "unsetPrintMode msk s =
    adjust_size (writePrintMode (s\<lparr>printMode := printMode s AND NOT msk\<rparr>))"

definition normal :: "printer \<Rightarrow> printer" where
  "normal s = writePrintMode (s\<lparr>printMode := 0\<rparr>)"

definition inverseOn :: "config \<Rightarrow> printer \<Rightarrow> printer" where
  "inverseOn cfg s =
    (if PRINTER_FIRMWARE cfg \<ge> 268 then writeBytes [ASCII_GS, lit CHR ''B'', 1] s
     else setPrintMode INVERSE_MASK s)"

definition inverseOff :: "config \<Rightarrow> printer \<Rightarrow> printer" where
  "inverseOff cfg s =
    (if PRINTER_FIRMWARE cfg \<ge> 268 then writeBytes [ASCII_GS, lit CHR ''B'', 0] s
     else unsetPrintMode INVERSE_MASK s)"

definition upsideDownOn :: "printer \<Rightarrow> printer" where
  "upsideDownOn = setPrintMode UPDOWN_MASK"

definition upsideDownOff :: "printer \<Rightarrow> printer" where
  "upsideDownOff = unsetPrintMode UPDOWN_MASK"

definition doubleHeightOn :: "printer \<Rightarrow> printer" where
  "doubleHeightOn = setPrintMode DOUBLE_HEIGHT_MASK"

definition doubleHeightOff :: "printer \<Rightarrow> printer" where
  "doubleHeightOff = unsetPrintMode DOUBLE_HEIGHT_MASK"

definition doubleWidthOn :: "printer \<Rightarrow> printer" where
  "doubleWidthOn = setPrintMode DOUBLE_WIDTH_MASK"

definition doubleWidthOff :: "printer \<Rightarrow> printer" where
  "doubleWidthOff = unsetPrintMode DOUBLE_WIDTH_MASK"

definition strikeOn :: "printer \<Rightarrow> printer" where
  "strikeOn = setPrintMode STRIKE_MASK"

definition strikeOff :: "printer \<Rightarrow> printer" where
  "strikeOff = unsetPrintMode STRIKE_MASK"

definition boldOn :: "printer \<Rightarrow> printer" where
  "boldOn = setPrintMode BOLD_MASK"

definition boldOff :: "printer \<Rightarrow> printer" where
  "boldOff = unsetPrintMode BOLD_MASK"

definition justify :: "8 word \<Rightarrow> printer \<Rightarrow> printer" where
  "justify v s =
    (let u = toupper v;
         pos = (if u = lit CHR ''L'' then 0
                else if u = lit CHR ''C'' then 1
                else if u = lit CHR ''R'' then 2
                else (0 :: 8 word))
     in writeBytes [ASCII_ESC, lit CHR ''a'', pos] s)"

definition feed :: "config \<Rightarrow> 8 word \<Rightarrow> printer \<Rightarrow> printer" where
  "feed cfg x s =
    (if PRINTER_FIRMWARE cfg \<ge> 264
     then (writeBytes [ASCII_ESC, lit CHR ''d'', x] s)\<lparr>prevByte := lit CHR 0x0A, column := 0\<rparr>
     else (write_byte cfg (lit CHR 0x0A) ^^ unat x) s)"

definition feedRows :: "8 word \<Rightarrow> printer \<Rightarrow> printer" where
  "feedRows rows s =
    (writeBytes [ASCII_ESC, lit CHR ''J'', rows] s)\<lparr>prevByte := lit CHR 0x0A, column := 0\<rparr>"

definition flush :: "printer \<Rightarrow> printer" where
  "flush s = writeBytes [ASCII_FF] s"

definition setSize :: "8 word \<Rightarrow> printer \<Rightarrow> printer" where
  "setSize v s =
    (let u = toupper v;
         (sz, s1) =
           (if u = lit CHR ''M'' then (0x01 :: 8 word, s\<lparr>charHeight := 48, maxColumn := 32\<rparr>)
            else if u = lit CHR ''L'' then (0x11, s\<lparr>charHeight := 48, maxColumn := 16\<rparr>)
            else (0x00, s\<lparr>charHeight := 24, maxColumn := 32\<rparr>))
     in (writeBytes [ASCII_GS, lit CHR ''!'', sz] s1)\<lparr>prevByte := lit CHR 0x0A\<rparr>)"

definition underlineOn :: "8 word \<Rightarrow> printer \<Rightarrow> printer" where
  "underlineOn weight0 s =
    (let weight = (if weight0 > 2 then 2 else weight0)
     in writeBytes [ASCII_ESC, lit CHR ''-'', weight] s)"

definition underlineOff :: "printer \<Rightarrow> printer" where
  "underlineOff s = writeBytes [ASCII_ESC, lit CHR ''-'', 0] s"

subsection \<open>Session commands\<close>

definition offline :: "printer \<Rightarrow> printer" where
  "offline s = writeBytes [ASCII_ESC, lit CHR ''='', 0] s"

definition online :: "printer \<Rightarrow> printer" where
  "online s = writeBytes [ASCII_ESC, lit CHR ''='', 1] s"

definition sleepAfter :: "config \<Rightarrow> 16 word \<Rightarrow> printer \<Rightarrow> printer" where
  "sleepAfter cfg seconds s =
    (if PRINTER_FIRMWARE cfg \<ge> 264
     then writeBytes [ASCII_ESC, lit CHR ''8'', ucast seconds, ucast (drop_bit 8 seconds)] s
     else writeBytes [ASCII_ESC, lit CHR ''8'', ucast seconds] s)"

definition sleep :: "config \<Rightarrow> printer \<Rightarrow> printer" where
  "sleep cfg s = sleepAfter cfg 1 s"

definition wake :: "config \<Rightarrow> printer \<Rightarrow> printer" where
  "wake cfg s =
    (let s1 = writeBytes [255] s
     in if PRINTER_FIRMWARE cfg \<ge> 264
        then writeBytes [ASCII_ESC, lit CHR ''8'', 0, 0] (delay 50 s1)
        else ((writeBytes [0]) ^^ 10) s1)"

text \<open>
  \<open>hasPaper\<close>. The receiving side of the stream is \<open>rx\<close>: \<open>rx i\<close> is the byte that
  \<open>available\<close> and \<open>read\<close> find at the poll with loop index \<open>i\<close>, if there is one.
  \<open>poll_status\<close> is the loop; next to the final \<open>status\<close> it counts the calls of
  \<open>available\<close>.
\<close>

function poll_status ::
  "(nat \<Rightarrow> 8 word option) \<Rightarrow> nat \<Rightarrow> int \<Rightarrow> nat \<Rightarrow> printer \<Rightarrow> int \<times> nat \<times> printer" where
  "poll_status rx i status polls s =
    (if i < 10 then
       (case rx i of
          Some b \<Rightarrow> (uint b, polls + 1, s)
        | None \<Rightarrow> poll_status rx (i + 1) status (polls + 1) (delay 100 s))
     else (status, polls, s))"
  by pat_completeness auto
termination
  by (relation "measure (\<lambda>(rx, i, status, polls, s). 10 - i)") auto

declare poll_status.simps [simp del]

definition hasPaper_polls :: "(nat \<Rightarrow> 8 word option) \<Rightarrow> printer \<Rightarrow> bool \<times> nat \<times> printer" where
  "hasPaper_polls rx s =
    (let s1 = writeBytes [0x10, 0x04, 4] s;
         (status, polls, s2) = poll_status rx 0 (- 1) 0 s1
     in (\<not> (status AND 4 \<noteq> 0), polls, s2))"

definition hasPaper :: "(nat \<Rightarrow> 8 word option) \<Rightarrow> printer \<Rightarrow> bool \<times> printer" where
  "hasPaper rx s = (case hasPaper_polls rx s of (r, polls, s') \<Rightarrow> (r, s'))"

definition setLineHeight :: "int \<Rightarrow> printer \<Rightarrow> printer" where
  "setLineHeight val0 s =
    (let val = (if val0 < 24 then 24 else val0);
         s1 = s\<lparr>lineSpacing := val - 24\<rparr>
     in writeBytes [ASCII_ESC, lit CHR ''3'', word_of_int val] s1)"

definition setMaxChunkHeight :: "int \<Rightarrow> printer \<Rightarrow> printer" where
  "setMaxChunkHeight val s = s\<lparr>maxChunkHeight := val\<rparr>"

definition setCharset :: "8 word \<Rightarrow> printer \<Rightarrow> printer" where
  "setCharset val0 s =
    (let val = (if val0 > 15 then 15 else val0)
     in writeBytes [ASCII_ESC, lit CHR ''R'', val] s)"

definition setCodePage :: "8 word \<Rightarrow> printer \<Rightarrow> printer" where
  "setCodePage val0 s =
    (let val = (if val0 > 47 then 47 else val0)
     in writeBytes [ASCII_ESC, lit CHR ''t'', val] s)"

definition tab :: "printer \<Rightarrow> printer" where
  "tab s = (writeBytes [ASCII_TAB] s)\<lparr>column := (column s + 4) AND 252\<rparr>"

definition setCharSpacing :: "int \<Rightarrow> printer \<Rightarrow> printer" where
  "setCharSpacing spacing s = writeBytes [ASCII_ESC, lit CHR '' '', word_of_int spacing] s"

definition cut :: "printer \<Rightarrow> printer" where
  "cut s = writeBytes [ASCII_GS, lit CHR ''V'', 0] s"

definition beep :: "printer \<Rightarrow> printer" where
  "beep s = writeBytes [ASCII_ESC, lit CHR ''o''] s"

definition setBeep :: "int \<Rightarrow> printer \<Rightarrow> printer" where
  "setBeep sec s = writeBytes [ASCII_GS, lit CHR ''o'', word_of_int sec] s"

subsection \<open>Barcodes and QR codes\<close>

text \<open>
  \<open>printBarcode\<close>. On firmware from 264 on, the length of the text is converted to
  \<open>int\<close>. On firmware below 264 the copy loop indexes the text with a
  \<open>uint8_t\<close> that wraps, so it only ends when a NUL lies within the first 256 bytes;
  otherwise the call does not return (\<open>None\<close>).
\<close>

definition printBarcode :: "config \<Rightarrow> 8 word list \<Rightarrow> 8 word \<Rightarrow> printer \<Rightarrow> printer option" where
  "printBarcode cfg text type s =
    (let s1 = feed cfg 1 s;
         s2 = writeBytes [ASCII_GS, lit CHR ''H'', 2] s1;
         s3 = writeBytes [ASCII_GS, lit CHR ''w'', 3] s2;
         s4 = writeBytes [ASCII_GS, lit CHR ''k'', type] s3
     in if PRINTER_FIRMWARE cfg \<ge> 264 then
          let len0 = to_int cfg (strlen text);
              len = (if len0 > 255 then 255 else len0);
              s5 = writeBytes [word_of_int len] s4;
              s6 = writeBytes (take (nat len) (c_str text)) s5
          in Some (s6\<lparr>prevByte := lit CHR 0x0A\<rparr>)
        else if strlen text \<le> 255 then
          Some ((writeBytes (c_str text @ [0]) s4)\<lparr>prevByte := lit CHR 0x0A\<rparr>)
        else None)"

definition reprintQRcode :: "16 word \<Rightarrow> printer \<Rightarrow> printer" where
  "reprintQRcode timeoutQR s =
    (let s1 = writeBytes [ASCII_GS, lit CHR ''('', lit CHR ''k'', 3] s;
         s2 = writeBytes [0, 49, 81, 48] s1
     in s2\<lparr>prevByte := lit CHR 0x0A\<rparr>)"

definition printQRcode ::
  "8 word list \<Rightarrow> 8 word \<Rightarrow> 8 word \<Rightarrow> 8 word \<Rightarrow> 16 word \<Rightarrow> printer \<Rightarrow> printer" where
  "printQRcode text errCorrect0 moduleSize0 model0 timeoutQR s =
    (let model = (if model0 < 49 \<or> model0 > 51 then 50 else model0);
         s1 = writeBytes [ASCII_GS, lit CHR ''('', lit CHR ''k'', 4] s;
         s2 = writeBytes [0, 49, 65, model] s1;
         s3 = writeBytes [0] s2;
         moduleSize = (if moduleSize0 < 1 \<or> moduleSize0 > 16 then 3 else moduleSize0);
         s4 = writeBytes [ASCII_GS, lit CHR ''('', lit CHR ''k''] s3;
         s5 = writeBytes [3, 0, 49, 67] s4;
         s6 = writeBytes [moduleSize] s5;
         errCorrect = (if errCorrect0 < 48 \<or> errCorrect0 > 51 then 48 else errCorrect0);
         s7 = writeBytes [ASCII_GS, lit CHR ''('', lit CHR ''k''] s6;
         s8 = writeBytes [3, 0, 49, 69] s7;
         s9 = writeBytes [errCorrect] s8;
         s10 = writeBytes [ASCII_GS, lit CHR ''('', lit CHR ''k''] s9;
         len = (word_of_int (strlen text) :: 16 word);
         s11 = writeBytes [word_of_int ((uint len + 3) smod 256),
                           word_of_int ((uint len + 3) sdiv 256)] s10;
         s12 = writeBytes [49, 80, 48] s11;
         s13 = writeBytes (take (unat len) (c_str text)) s12
     in reprintQRcode timeoutQR s13)"

subsection \<open>Bitmaps\<close>

text \<open>
  A bitmap pointer is the memory it points into, a function from the offset to the
  byte there; reading through \<open>pgm_read_byte\<close> or directly gives the same byte, so
  the flag \<open>fromProgMem\<close> is not a parameter. Two nested counting loops that read
  at an index going up by one per step read a block of consecutive bytes; the index
  \<open>i\<close> is an \<open>int\<close> and ends as the number of bytes read. A command returns
  \<open>Inl\<close> with the fault where an \<open>int\<close> computation of its leaves the range of the
  type, and \<open>Inr\<close> with the new state otherwise. The second overload of
  \<open>defineNVBitmap\<close>, for two images, is \<open>defineNVBitmap2\<close>.
\<close>

definition read_block :: "config \<Rightarrow> (int \<Rightarrow> 8 word) \<Rightarrow> int \<Rightarrow> int \<Rightarrow> fault + 8 word list" where
  "read_block cfg bitmap rows cols =
    (if in_int cfg (int (nat rows * nat cols))
     then Inr (map (\<lambda>k. bitmap (int k)) [0 ..< nat rows * nat cols])
     else Inl SignedOverflow)"

definition printBitmap ::
  "config \<Rightarrow> int \<Rightarrow> int \<Rightarrow> (int \<Rightarrow> 8 word) \<Rightarrow> printer \<Rightarrow> fault + printer" where
  "printBitmap cfg w h bitmap s =
    (if \<not> in_int cfg (w + 7) then Inl SignedOverflow
     else
       let rowBytes = (w + 7) sdiv 8;
           s1 = writeBytes [ASCII_GS, lit CHR ''v'', lit CHR ''0'', 0,
                            word_of_int (rowBytes smod 256), word_of_int (rowBytes sdiv 256),
                            word_of_int (h smod 256), word_of_int (h sdiv 256)] s
       in case read_block cfg bitmap h rowBytes of
            Inl f \<Rightarrow> Inl f
          | Inr bytes \<Rightarrow> Inr ((writeBytes bytes s1)\<lparr>prevByte := lit CHR 0x0A\<rparr>))"

definition defineBitImage ::
  "config \<Rightarrow> int \<Rightarrow> int \<Rightarrow> (int \<Rightarrow> 8 word) \<Rightarrow> printer \<Rightarrow> fault + printer" where
  "defineBitImage cfg w h bitmap s =
    (if \<not> in_int cfg (w + 7) \<or> \<not> in_int cfg (h + 7) then Inl SignedOverflow
     else
       let rowBytes = (w + 7) sdiv 8;
           colBytes = (h + 7) sdiv 8;
           s1 = writeBytes [0x1D, 0x2A, word_of_int rowBytes, word_of_int colBytes] s
       in case read_block cfg bitmap h rowBytes of
            Inl f \<Rightarrow> Inl f
          | Inr bytes \<Rightarrow> Inr ((writeBytes bytes s1)\<lparr>prevByte := lit CHR 0x0A\<rparr>))"

definition printDefinedBitImage :: "int \<Rightarrow> printer \<Rightarrow> printer" where
  "printDefinedBitImage mode s = writeBytes [0x1D, 0x2F, word_of_int mode] s"

text \<open>
  One image of \<open>defineNVBitmap\<close>: the four size bytes, then \<open>colBytes\<close> rows of
  \<open>cols\<close> bytes each.
\<close>

definition nv_image ::
  "config \<Rightarrow> int \<Rightarrow> int \<Rightarrow> int \<Rightarrow> (int \<Rightarrow> 8 word) \<Rightarrow> printer \<Rightarrow> fault + printer" where
  "nv_image cfg rowBytes colBytes cols bitmap s =
    (let s1 = writeBytes [word_of_int (rowBytes smod 256), word_of_int (rowBytes sdiv 256),
                          word_of_int (colBytes smod 256), word_of_int (colBytes sdiv 256)] s
     in case read_block cfg bitmap colBytes cols of
          Inl f \<Rightarrow> Inl f
        | Inr bytes \<Rightarrow> Inr (writeBytes bytes s1))"

definition defineNVBitmap ::
  "config \<Rightarrow> int \<Rightarrow> int \<Rightarrow> (int \<Rightarrow> 8 word) \<Rightarrow> printer \<Rightarrow> fault + printer" where
  "defineNVBitmap cfg w h bitmap s =
    (if \<not> in_int cfg (h + 7) then Inl SignedOverflow
     else
       let rowBytes = w sdiv 8;
           colBytes = (h + 7) sdiv 8;
           s1 = writeBytes [0x1C, 0x71, 1] s
       in nv_image cfg rowBytes colBytes w bitmap s1)"

text \<open>
  In the overload for two images the inner loop runs to \<open>rowBytes * 8\<close>, a product
  that is computed when the loop is reached, so when \<open>colBytes\<close> is positive.
\<close>

definition defineNVBitmap2 ::
  "config \<Rightarrow> int \<Rightarrow> int \<Rightarrow> (int \<Rightarrow> 8 word) \<Rightarrow> int \<Rightarrow> int \<Rightarrow> (int \<Rightarrow> 8 word) \<Rightarrow> printer
    \<Rightarrow> fault + printer" where
  "defineNVBitmap2 cfg w1 h1 bitmap1 w2 h2 bitmap2 s =
    (if \<not> in_int cfg (h1 + 7) then Inl SignedOverflow
     else
       let rowBytes = w1 sdiv 8;
           colBytes = (h1 + 7) sdiv 8;
           s1 = writeBytes [0x1C, 0x71, 2] s
       in if 0 < colBytes \<and> \<not> in_int cfg (rowBytes * 8) then Inl SignedOverflow
          else
            case nv_image cfg rowBytes colBytes (rowBytes * 8) bitmap1 s1 of
              Inl f \<Rightarrow> Inl f
            | Inr s2 \<Rightarrow>
                if \<not> in_int cfg (h2 + 7) then Inl SignedOverflow
                else
                  let rowBytes' = w2 sdiv 8;
                      colBytes' = (h2 + 7) sdiv 8
                  in if 0 < colBytes' \<and> \<not> in_int cfg (rowBytes' * 8) then Inl SignedOverflow
                     else nv_image cfg rowBytes' colBytes' (rowBytes' * 8) bitmap2 s2)"

definition printNVBitmap :: "int \<Rightarrow> int \<Rightarrow> printer \<Rightarrow> printer" where
  "printNVBitmap n mode s = writeBytes [0x1C, 0x70, word_of_int n, word_of_int mode] s"

subsection \<open>The chunked bitmap print, from a buffer\<close>

text \<open>
  \<open>printBitmap_ada\<close> has three overloads: from a buffer (\<open>printBitmap_ada\<close>), from
  a stream with the dimensions given (\<open>printBitmap_ada_stream\<close>) and from a stream
  that starts with the dimensions (\<open>printBitmap_ada_header\<close>).
\<close>

text \<open>
  A result of type \<open>(fault + 'a) option\<close> is \<open>None\<close> for a call that never returns,
  \<open>Some (Inl f)\<close> for one that runs into the fault \<open>f\<close>, and \<open>Some (Inr r)\<close> for one
  that returns with \<open>r\<close>.
\<close>

definition ada_rowBytes :: "config \<Rightarrow> int \<Rightarrow> fault + int" where
  "ada_rowBytes cfg w =
    (if in_int cfg (w + 7) then Inr ((w + 7) sdiv 8) else Inl SignedOverflow)"

definition ada_rowBytesClipped :: "int \<Rightarrow> int" where
  "ada_rowBytesClipped rowBytes = (if rowBytes \<ge> 48 then 48 else rowBytes)"

definition ada_chunkHeightLimit :: "printer \<Rightarrow> int \<Rightarrow> fault + int" where
  "ada_chunkHeightLimit s rowBytesClipped =
    (if dtrEnabled s then Inr 255
     else if rowBytesClipped = 0 then Inl DivisionByZero
     else
       let l = 256 sdiv rowBytesClipped
       in Inr (if l > maxChunkHeight s then maxChunkHeight s
               else if l < 1 then 1
               else l))"

text \<open>
  The rows of one chunk: \<open>n\<close> rows, each sending \<open>rowBytesClipped\<close> bytes from
  offset \<open>i\<close> on, with \<open>i\<close> counted up byte by byte, and then adding
  \<open>rowBytes - rowBytesClipped\<close> to \<open>i\<close> to skip the rest of the source row. The
  result is the bytes sent and the offset reached.
\<close>

fun ada_rows ::
  "config \<Rightarrow> (int \<Rightarrow> 8 word) \<Rightarrow> int \<Rightarrow> int \<Rightarrow> nat \<Rightarrow> int \<Rightarrow> fault + 8 word list \<times> int" where
  "ada_rows cfg bitmap rowBytes rowBytesClipped 0 i = Inr ([], i)"
| "ada_rows cfg bitmap rowBytes rowBytesClipped (Suc n) i =
    (let row = map (\<lambda>x. bitmap (i + int x)) [0 ..< nat rowBytesClipped];
         i1 = i + int (nat rowBytesClipped);
         skip = rowBytes - rowBytesClipped;
         i2 = i1 + skip
     in if in_int cfg i1 \<and> in_int cfg skip \<and> in_int cfg i2 then
          (case ada_rows cfg bitmap rowBytes rowBytesClipped n i2 of
             Inl f \<Rightarrow> Inl f
           | Inr rest \<Rightarrow> Inr (row @ fst rest, snd rest))
        else Inl SignedOverflow)"

text \<open>
  The loop over the chunks. It need not end (a limit of 0 never advances
  \<open>rowStart\<close>), so it is a partial function. \<open>hs\<close> collects the values of
  \<open>chunkHeight\<close>, one per chunk issued, in order.
\<close>

partial_function (option) ada_loop ::
  "config \<Rightarrow> (int \<Rightarrow> 8 word) \<Rightarrow> int \<Rightarrow> int \<Rightarrow> int \<Rightarrow> int \<Rightarrow> int \<Rightarrow> int \<Rightarrow> int list \<Rightarrow> printer
    \<Rightarrow> (fault + int list \<times> printer) option" where
  [code]: "ada_loop cfg bitmap h chunkHeightLimit rowBytes rowBytesClipped rowStart i hs s =
    (if rowStart < h then
       if \<not> in_int cfg (h - rowStart) then Some (Inl SignedOverflow)
       else
         let chunkHeight = (if h - rowStart > chunkHeightLimit then chunkHeightLimit
                            else h - rowStart);
             s1 = writeBytes [ASCII_ESC, lit CHR ''*'', word_of_int chunkHeight,
                              word_of_int rowBytesClipped] s
         in case ada_rows cfg bitmap rowBytes rowBytesClipped (nat chunkHeight) i of
              Inl f \<Rightarrow> Some (Inl f)
            | Inr rows \<Rightarrow>
                if \<not> in_int cfg (rowStart + chunkHeightLimit) then Some (Inl SignedOverflow)
                else ada_loop cfg bitmap h chunkHeightLimit rowBytes rowBytesClipped
                       (rowStart + chunkHeightLimit) (snd rows) (hs @ [chunkHeight])
                       (writeBytes (fst rows) s1)
     else Some (Inr (hs, s)))"

definition printBitmap_ada_chunks ::
  "config \<Rightarrow> int \<Rightarrow> int \<Rightarrow> (int \<Rightarrow> 8 word) \<Rightarrow> printer \<Rightarrow> (fault + int list \<times> printer) option" where
  "printBitmap_ada_chunks cfg w h bitmap s =
    (case ada_rowBytes cfg w of
       Inl f \<Rightarrow> Some (Inl f)
     | Inr rowBytes \<Rightarrow>
         let rowBytesClipped = ada_rowBytesClipped rowBytes
         in case ada_chunkHeightLimit s rowBytesClipped of
              Inl f \<Rightarrow> Some (Inl f)
            | Inr chunkHeightLimit \<Rightarrow>
                (case ada_loop cfg bitmap h chunkHeightLimit rowBytes rowBytesClipped 0 0 [] s of
                   None \<Rightarrow> None
                 | Some (Inl f) \<Rightarrow> Some (Inl f)
                 | Some (Inr (hs, s')) \<Rightarrow> Some (Inr (hs, s'\<lparr>prevByte := lit CHR 0x0A\<rparr>))))"


definition returned :: "(fault + 'a \<times> printer) option \<Rightarrow> printer option" where
  "returned r = (case r of Some (Inr (x, s')) \<Rightarrow> Some s' | _ \<Rightarrow> None)"

definition printBitmap_ada ::
  "config \<Rightarrow> int \<Rightarrow> int \<Rightarrow> (int \<Rightarrow> 8 word) \<Rightarrow> printer \<Rightarrow> printer option" where
  "printBitmap_ada cfg w h bitmap s = returned (printBitmap_ada_chunks cfg w h bitmap s)"

subsection \<open>The chunked bitmap print, from a stream\<close>

text \<open>
  The stream a bitmap is read from is the list of the results of its successive
  \<open>read\<close> calls, \<open>None\<close> where \<open>read\<close> returns -1 because no byte is there yet;
  after the end of the list every \<open>read\<close> returns -1. The loop
  \<open>while((c = fromStream->read()) < 0);\<close> skips the failed reads and never ends when
  no byte follows.
\<close>

fun blocking_read :: "8 word option list \<Rightarrow> (8 word \<times> 8 word option list) option" where
  "blocking_read [] = None"
| "blocking_read (None # rs) = blocking_read rs"
| "blocking_read (Some b # rs) = Some (b, rs)"

fun blocking_reads :: "nat \<Rightarrow> 8 word option list \<Rightarrow> (8 word list \<times> 8 word option list) option" where
  "blocking_reads 0 rs = Some ([], rs)"
| "blocking_reads (Suc n) rs =
    (case blocking_read rs of
       None \<Rightarrow> None
     | Some (b, rs1) \<Rightarrow>
         (case blocking_reads n rs1 of
            None \<Rightarrow> None
          | Some (bs, rs2) \<Rightarrow> Some (b # bs, rs2)))"

text \<open>
  The rows of one chunk: each row sends \<open>rowBytesClipped\<close> bytes and reads and drops
  \<open>rowBytes - rowBytesClipped\<close> more, counting down from that difference. The result
  is the bytes sent and the rest of the stream.
\<close>

fun ada_stream_rows ::
  "config \<Rightarrow> int \<Rightarrow> int \<Rightarrow> nat \<Rightarrow> 8 word option list
    \<Rightarrow> (fault + 8 word list \<times> 8 word option list) option" where
  "ada_stream_rows cfg rowBytes rowBytesClipped 0 rs = Some (Inr ([], rs))"
| "ada_stream_rows cfg rowBytes rowBytesClipped (Suc n) rs =
    (case blocking_reads (nat rowBytesClipped) rs of
       None \<Rightarrow> None
     | Some (row, rs1) \<Rightarrow>
         if \<not> in_int cfg (rowBytes - rowBytesClipped) then Some (Inl SignedOverflow)
         else
           (case blocking_reads (nat (rowBytes - rowBytesClipped)) rs1 of
              None \<Rightarrow> None
            | Some (skipped, rs2) \<Rightarrow>
                (case ada_stream_rows cfg rowBytes rowBytesClipped n rs2 of
                   None \<Rightarrow> None
                 | Some (Inl f) \<Rightarrow> Some (Inl f)
                 | Some (Inr (rest, rs3)) \<Rightarrow> Some (Inr (row @ rest, rs3)))))"

partial_function (option) ada_stream_loop ::
  "config \<Rightarrow> int \<Rightarrow> int \<Rightarrow> int \<Rightarrow> int \<Rightarrow> int \<Rightarrow> 8 word option list \<Rightarrow> printer
    \<Rightarrow> (fault + 8 word option list \<times> printer) option" where
  [code]: "ada_stream_loop cfg h chunkHeightLimit rowBytes rowBytesClipped rowStart rs s =
    (if rowStart < h then
       if \<not> in_int cfg (h - rowStart) then Some (Inl SignedOverflow)
       else
         let chunkHeight = (if h - rowStart > chunkHeightLimit then chunkHeightLimit
                            else h - rowStart);
             s1 = writeBytes [ASCII_ESC, lit CHR ''*'', word_of_int chunkHeight,
                              word_of_int rowBytesClipped] s
         in case ada_stream_rows cfg rowBytes rowBytesClipped (nat chunkHeight) rs of
              None \<Rightarrow> None
            | Some (Inl f) \<Rightarrow> Some (Inl f)
            | Some (Inr rows) \<Rightarrow>
                if \<not> in_int cfg (rowStart + chunkHeightLimit) then Some (Inl SignedOverflow)
                else ada_stream_loop cfg h chunkHeightLimit rowBytes rowBytesClipped
                       (rowStart + chunkHeightLimit) (snd rows) (writeBytes (fst rows) s1)
     else Some (Inr (rs, s)))"

definition printBitmap_ada_stream ::
  "config \<Rightarrow> int \<Rightarrow> int \<Rightarrow> 8 word option list \<Rightarrow> printer
    \<Rightarrow> (fault + 8 word option list \<times> printer) option" where
  "printBitmap_ada_stream cfg w h rs s =
    (case ada_rowBytes cfg w of
       Inl f \<Rightarrow> Some (Inl f)
     | Inr rowBytes \<Rightarrow>
         let rowBytesClipped = ada_rowBytesClipped rowBytes
         in case ada_chunkHeightLimit s rowBytesClipped of
              Inl f \<Rightarrow> Some (Inl f)
            | Inr chunkHeightLimit \<Rightarrow>
                (case ada_stream_loop cfg h chunkHeightLimit rowBytes rowBytesClipped 0 rs s of
                   None \<Rightarrow> None
                 | Some (Inl f) \<Rightarrow> Some (Inl f)
                 | Some (Inr (rs', s')) \<Rightarrow> Some (Inr (rs', s'\<lparr>prevByte := lit CHR 0x0A\<rparr>))))"

text \<open>
  The variant that first reads width and height from the stream, low byte first, with
  four plain \<open>read\<close> calls: a call that finds nothing yields -1. The shift
  \<open>read() << 8\<close> is the multiplication by 256, also of -1, and the sum is reduced
  to 16 bits by the assignment. The two \<open>uint16_t\<close> values are then passed as
  \<open>int\<close>.
\<close>

definition read_int :: "8 word option list \<Rightarrow> int \<times> 8 word option list" where
  "read_int rs =
    (case rs of
       [] \<Rightarrow> (- 1, [])
     | None # rs' \<Rightarrow> (- 1, rs')
     | Some b # rs' \<Rightarrow> (uint b, rs'))"

definition printBitmap_ada_header ::
  "config \<Rightarrow> 8 word option list \<Rightarrow> printer \<Rightarrow> (fault + 8 word option list \<times> printer) option" where
  "printBitmap_ada_header cfg rs s =
    (let r0 = read_int rs;
         tmp = (word_of_int (fst r0) :: 8 word);
         r1 = read_int (snd r0);
         width = (word_of_int (fst r1 * 256 + uint tmp) :: 16 word);
         r2 = read_int (snd r1);
         tmp' = (word_of_int (fst r2) :: 8 word);
         r3 = read_int (snd r2);
         height = (word_of_int (fst r3 * 256 + uint tmp') :: 16 word)
     in printBitmap_ada_stream cfg (to_int cfg (uint width)) (to_int cfg (uint height))
          (snd r3) s)"

subsection \<open>Defaults and start-up\<close>

definition setDefault :: "config \<Rightarrow> printer \<Rightarrow> printer" where
  "setDefault cfg s =
    (let s1 = online s;
         s2 = justify (lit CHR ''L'') s1;
         s3 = inverseOff cfg s2;
         s4 = doubleHeightOff s3;
         s5 = setLineHeight 30 s4;
         s6 = boldOff s5;
         s7 = underlineOff s6;
         s8 = setBarcodeHeight 50 s7;
         s9 = setSize (lit CHR ''s'') s8;
         s10 = setCharset (CHARSET_DENMARK1 cfg) s9
     in setCodePage (CODEPAGE_ISO_8859_1 cfg) s10)"

text \<open>
  \<open>Pos_Printer::begin\<close>, here \<open>begin_printer\<close>; \<open>pinMode\<close> configures an input
  pin and leaves the driver state alone.
\<close>

definition begin_printer :: "config \<Rightarrow> 8 word \<Rightarrow> printer \<Rightarrow> printer" where
  "begin_printer cfg heatTime s =
    (let s1 = wake cfg s;
         s2 = reset cfg s1;
         s3 = writeBytes [ASCII_ESC, lit CHR ''7''] s2;
         s4 = writeBytes [11, heatTime, 40] s3;
         s5 = (if dtrPin s4 < 255
               then (writeBytes [ASCII_GS, lit CHR ''a'', push_bit 5 1] s4)\<lparr>dtrEnabled := True\<rparr>
               else s4);
         s6 = s5\<lparr>dotPrintTime := 1, dotFeedTime := 1, maxChunkHeight := 255\<rparr>
     in setDefault cfg s6)"

definition test :: "config \<Rightarrow> printer \<Rightarrow> printer" where
  "test cfg s = feed cfg 2 (println cfg (map lit ''Hello World!'') s)"

subsection \<open>Sequences of operations\<close>

text \<open>The state a command returns with, if it does.\<close>

definition finished :: "fault + printer \<Rightarrow> printer option" where
  "finished r = (case r of Inl f \<Rightarrow> None | Inr s' \<Rightarrow> Some s')"

text \<open>
  The operations a sketch can call on the driver, with their arguments, and what each
  does to the state. Text printed through the inherited \<open>Print\<close> class reaches the
  driver as a sequence of \<open>write\<close> calls. An operation that does not return, or that
  runs into a fault, gives \<open>None\<close>, and so does every sequence that contains it.
\<close>

datatype op =
    Write "8 word"
  | Begin "8 word"
  | Reset
  | SetDefault
  | Test
  | TestPage
  | SetTimes "32 word" "32 word"
  | SetBarcodeHeight "8 word"
  | PrintBarcode "8 word list" "8 word"
  | SetPrintMode "8 word"
  | UnsetPrintMode "8 word"
  | Normal
  | InverseOn | InverseOff
  | UpsideDownOn | UpsideDownOff
  | DoubleHeightOn | DoubleHeightOff
  | DoubleWidthOn | DoubleWidthOff
  | StrikeOn | StrikeOff
  | BoldOn | BoldOff
  | Justify "8 word"
  | Feed "8 word"
  | FeedRows "8 word"
  | Flush
  | SetSize "8 word"
  | UnderlineOn "8 word"
  | UnderlineOff
  | PrintBitmap int int "int \<Rightarrow> 8 word"
  | DefineBitImage int int "int \<Rightarrow> 8 word"
  | PrintDefinedBitImage int
  | DefineNVBitmap int int "int \<Rightarrow> 8 word"
  | DefineNVBitmap2 int int "int \<Rightarrow> 8 word" int int "int \<Rightarrow> 8 word"
  | PrintNVBitmap int int
  | PrintBitmap_ada int int "int \<Rightarrow> 8 word"
  | PrintBitmap_ada_stream int int "8 word option list"
  | PrintBitmap_ada_header "8 word option list"
  | Offline | Online
  | Sleep
  | SleepAfter "16 word"
  | Wake
  | HasPaper "nat \<Rightarrow> 8 word option"
  | SetLineHeight int
  | SetMaxChunkHeight int
  | SetCharset "8 word"
  | SetCodePage "8 word"
  | Tab
  | SetCharSpacing int
  | Cut
  | Beep
  | SetBeep int
  | PrintQRcode "8 word list" "8 word" "8 word" "8 word" "16 word"
  | ReprintQRcode "16 word"

fun step :: "config \<Rightarrow> op \<Rightarrow> printer \<Rightarrow> printer option" where
  "step cfg (Write c) s = Some (write_byte cfg c s)"
| "step cfg (Begin heatTime) s = Some (begin_printer cfg heatTime s)"
| "step cfg Reset s = Some (reset cfg s)"
| "step cfg SetDefault s = Some (setDefault cfg s)"
| "step cfg Test s = Some (test cfg s)"
| "step cfg TestPage s = Some (testPage s)"
| "step cfg (SetTimes p f) s = Some (setTimes p f s)"
| "step cfg (SetBarcodeHeight v) s = Some (setBarcodeHeight v s)"
| "step cfg (PrintBarcode text type) s = printBarcode cfg text type s"
| "step cfg (SetPrintMode m) s = Some (setPrintMode m s)"
| "step cfg (UnsetPrintMode m) s = Some (unsetPrintMode m s)"
| "step cfg Normal s = Some (normal s)"
| "step cfg InverseOn s = Some (inverseOn cfg s)"
| "step cfg InverseOff s = Some (inverseOff cfg s)"
| "step cfg UpsideDownOn s = Some (upsideDownOn s)"
| "step cfg UpsideDownOff s = Some (upsideDownOff s)"
| "step cfg DoubleHeightOn s = Some (doubleHeightOn s)"
| "step cfg DoubleHeightOff s = Some (doubleHeightOff s)"
| "step cfg DoubleWidthOn s = Some (doubleWidthOn s)"
| "step cfg DoubleWidthOff s = Some (doubleWidthOff s)"
| "step cfg StrikeOn s = Some (strikeOn s)"
| "step cfg StrikeOff s = Some (strikeOff s)"
| "step cfg BoldOn s = Some (boldOn s)"
| "step cfg BoldOff s = Some (boldOff s)"
| "step cfg (Justify v) s = Some (justify v s)"
| "step cfg (Feed x) s = Some (feed cfg x s)"
| "step cfg (FeedRows x) s = Some (feedRows x s)"
| "step cfg Flush s = Some (flush s)"
| "step cfg (SetSize v) s = Some (setSize v s)"
| "step cfg (UnderlineOn w) s = Some (underlineOn w s)"
| "step cfg UnderlineOff s = Some (underlineOff s)"
| "step cfg (PrintBitmap w h b) s = finished (printBitmap cfg w h b s)"
| "step cfg (DefineBitImage w h b) s = finished (defineBitImage cfg w h b s)"
| "step cfg (PrintDefinedBitImage m) s = Some (printDefinedBitImage m s)"
| "step cfg (DefineNVBitmap w h b) s = finished (defineNVBitmap cfg w h b s)"
| "step cfg (DefineNVBitmap2 w1 h1 b1 w2 h2 b2) s =
    finished (defineNVBitmap2 cfg w1 h1 b1 w2 h2 b2 s)"
| "step cfg (PrintNVBitmap n m) s = Some (printNVBitmap n m s)"
| "step cfg (PrintBitmap_ada w h b) s = printBitmap_ada cfg w h b s"
| "step cfg (PrintBitmap_ada_stream w h rs) s = returned (printBitmap_ada_stream cfg w h rs s)"
| "step cfg (PrintBitmap_ada_header rs) s = returned (printBitmap_ada_header cfg rs s)"
| "step cfg Offline s = Some (offline s)"
| "step cfg Online s = Some (online s)"
| "step cfg Sleep s = Some (sleep cfg s)"
| "step cfg (SleepAfter n) s = Some (sleepAfter cfg n s)"
| "step cfg Wake s = Some (wake cfg s)"
| "step cfg (HasPaper rx) s = Some (snd (hasPaper rx s))"
| "step cfg (SetLineHeight v) s = Some (setLineHeight v s)"
| "step cfg (SetMaxChunkHeight v) s = Some (setMaxChunkHeight v s)"
| "step cfg (SetCharset v) s = Some (setCharset v s)"
| "step cfg (SetCodePage v) s = Some (setCodePage v s)"
| "step cfg Tab s = Some (tab s)"
| "step cfg (SetCharSpacing v) s = Some (setCharSpacing v s)"
| "step cfg Cut s = Some (cut s)"
| "step cfg Beep s = Some (beep s)"
| "step cfg (SetBeep v) s = Some (setBeep v s)"
| "step cfg (PrintQRcode text e ms m t) s = Some (printQRcode text e ms m t s)"
| "step cfg (ReprintQRcode t) s = Some (reprintQRcode t s)"

fun run :: "config \<Rightarrow> op list \<Rightarrow> printer \<Rightarrow> printer option" where
  "run cfg [] s = Some s"
| "run cfg (x # xs) s = (case step cfg x s of None \<Rightarrow> None | Some s' \<Rightarrow> run cfg xs s')"

subsection \<open>Properties of the state\<close>

text \<open>
  The character height and the line width agree with the double-height and the
  double-width flag of the print mode.
\<close>

definition consistent :: "printer \<Rightarrow> bool" where
  "consistent s \<longleftrightarrow>
     charHeight s = (if printMode s AND DOUBLE_HEIGHT_MASK \<noteq> 0 then 48 else 24)
   \<and> maxColumn s = (if printMode s AND DOUBLE_WIDTH_MASK \<noteq> 0 then 16 else 32)"

text \<open>
  The operations that assign the flag byte without the geometry, or the geometry
  without the flag byte, and the two start-up operations that call them.
\<close>

fun decouples :: "op \<Rightarrow> bool" where
  "decouples Normal = True"
| "decouples Reset = True"
| "decouples (SetSize v) = True"
| "decouples SetDefault = True"
| "decouples (Begin heatTime) = True"
| "decouples x = False"

text \<open>
  The two ways a step can carry the column past the line width: a \<open>tab\<close> issued on a
  full line, and an operation after which the line is narrower than before and narrower
  than the column reached.
\<close>

fun is_tab :: "op \<Rightarrow> bool" where
  "is_tab Tab = True"
| "is_tab x = False"

definition overruns :: "config \<Rightarrow> op \<Rightarrow> printer \<Rightarrow> bool" where
  "overruns cfg x s \<longleftrightarrow>
     (is_tab x \<and> column s = maxColumn s)
   \<or> (case step cfg x s of
         None \<Rightarrow> False
       | Some s' \<Rightarrow> maxColumn s' < maxColumn s \<and> maxColumn s' < column s)"

text \<open>No step of the sequence, run from the given state, is of these two kinds.\<close>

fun never_overruns :: "config \<Rightarrow> op list \<Rightarrow> printer \<Rightarrow> bool" where
  "never_overruns cfg [] s = True"
| "never_overruns cfg (x # xs) s =
    (\<not> overruns cfg x s
     \<and> (case step cfg x s of None \<Rightarrow> True | Some s' \<Rightarrow> never_overruns cfg xs s'))"

text \<open>
  The operations that can make the line narrower: those that recompute \<open>maxColumn\<close>
  from the print mode without clearing the double-width flag, and \<open>setSize\<close> for the
  large size. \<open>doubleWidthOff\<close> and \<open>unsetPrintMode\<close> with the double-width flag in
  the mask always leave the line at 32.
\<close>

fun can_narrow :: "config \<Rightarrow> op \<Rightarrow> bool" where
  "can_narrow cfg (SetPrintMode m) = True"
| "can_narrow cfg (UnsetPrintMode m) = (m AND DOUBLE_WIDTH_MASK = 0)"
| "can_narrow cfg InverseOn = (PRINTER_FIRMWARE cfg < 268)"
| "can_narrow cfg InverseOff = (PRINTER_FIRMWARE cfg < 268)"
| "can_narrow cfg UpsideDownOn = True"
| "can_narrow cfg UpsideDownOff = True"
| "can_narrow cfg DoubleHeightOn = True"
| "can_narrow cfg DoubleHeightOff = True"
| "can_narrow cfg DoubleWidthOn = True"
| "can_narrow cfg StrikeOn = True"
| "can_narrow cfg StrikeOff = True"
| "can_narrow cfg BoldOn = True"
| "can_narrow cfg BoldOff = True"
| "can_narrow cfg (SetSize v) = (toupper v = lit CHR ''L'')"
| "can_narrow cfg x = False"

text \<open>
  The column is within the line width before the sequence, after it, and after every
  step of it.
\<close>

fun in_range_throughout :: "config \<Rightarrow> op list \<Rightarrow> printer \<Rightarrow> bool" where
  "in_range_throughout cfg [] s = (column s \<le> maxColumn s)"
| "in_range_throughout cfg (x # xs) s =
    (column s \<le> maxColumn s
     \<and> (case step cfg x s of None \<Rightarrow> True | Some s' \<Rightarrow> in_range_throughout cfg xs s'))"

subsection \<open>The byte stream of a chunked print\<close>




subsection \<open>Sample inputs\<close>

text \<open>
  A build for firmware 268 without \<open>DENMARK\<close> on a board with 16-bit \<open>int\<close>, an
  object whose memory is all zero, and the state after \<open>begin\<close>, without and with a
  DTR pin.
\<close>

definition sample_config :: config where
  "sample_config =
    \<lparr>PRINTER_FIRMWARE = 268, DENMARK = False, CHARSET_DENMARK1 = 4, CODEPAGE_ISO_8859_1 = 23,
     INT_MAX = 32767\<rparr>"

definition zeroed :: printer where
  "zeroed =
    \<lparr>out = [], waited = 0, printMode = 0, prevByte = 0, column = 0, maxColumn = 0,
     charHeight = 0, lineSpacing = 0, barcodeHeight = 0, maxChunkHeight = 0,
     dotPrintTime = 0, dotFeedTime = 0, dtrPin = 0, dtrEnabled = False\<rparr>"

definition started :: printer where
  "started = begin_printer sample_config 120 (Pos_Printer 255 zeroed)"


text \<open>
  A state that \<open>reset\<close> leaves with the double-width flag still set: double width,
  \<open>reset\<close>, and five tabs that take the column to 20 on a line of 32.
\<close>

definition flagged_wide :: "config \<Rightarrow> printer" where
  "flagged_wide cfg =
    the (run cfg [DoubleWidthOn, Reset, Tab, Tab, Tab, Tab, Tab] (reset cfg zeroed))"


definition byte_at_poll :: "nat \<Rightarrow> 8 word \<Rightarrow> nat \<Rightarrow> 8 word option" where
  "byte_at_poll n b i = (if i = n then Some b else None)"

definition silent :: "nat \<Rightarrow> 8 word option" where
  "silent i = None"

section \<open>Auxiliary facts\<close>

subsection \<open>Definition bundles and sample states\<close>

lemmas mask_defs = INVERSE_MASK_def UPDOWN_MASK_def BOLD_MASK_def DOUBLE_HEIGHT_MASK_def
  DOUBLE_WIDTH_MASK_def STRIKE_MASK_def

lemmas toggle_defs = inverseOn_def inverseOff_def upsideDownOn_def upsideDownOff_def
  doubleHeightOn_def doubleHeightOff_def doubleWidthOn_def doubleWidthOff_def
  strikeOn_def strikeOff_def boldOn_def boldOff_def

lemmas sample_defs = sample_config_def zeroed_def Pos_Printer_def

lemma started_eq:
  "started =
    \<lparr>out = [255, 27, 56, 0, 0, 27, 64, 27, 68, 4, 8, 12, 16, 27, 55, 11, 120, 40, 27, 61, 1, 27,
            97, 0, 29, 66, 0, 27, 33, 0, 27, 51, 30, 27, 33, 0, 27, 45, 0, 29, 104, 50, 29, 33,
            0, 27, 82, 4, 27, 116, 23],
     waited = 50, printMode = 0, prevByte = 10, column = 0, maxColumn = 32, charHeight = 24,
     lineSpacing = 6, barcodeHeight = 50, maxChunkHeight = 255, dotPrintTime = 1,
     dotFeedTime = 1, dtrPin = 255, dtrEnabled = False\<rparr>"
  by (simp add: started_def begin_printer_def sample_defs wake_def reset_def
        writeBytes_def delay_def setDefault_def online_def justify_def toupper_def inverseOff_def
        doubleHeightOff_def unsetPrintMode_def adjust_size_def writePrintMode_def
        setLineHeight_def boldOff_def underlineOff_def setBarcodeHeight_def setSize_def
        setCharset_def setCodePage_def ASCII_ESC_def ASCII_GS_def mask_defs Let_def)


lemma BYTE_TIME_value: "BYTE_TIME = 573"
  by (simp add: BYTE_TIME_def BAUDRATE_def)

subsection \<open>What each command does to mode, column, width and height\<close>

text \<open>
  The commands that leave print mode, column, line width and character height alone.
\<close>

lemma writeBytes_fields [simp]:
  "printMode (writeBytes bs s) = printMode s"
  "column (writeBytes bs s) = column s"
  "maxColumn (writeBytes bs s) = maxColumn s"
  "charHeight (writeBytes bs s) = charHeight s"
  by (simp_all add: writeBytes_def)

lemma delay_fields [simp]:
  "printMode (delay ms s) = printMode s"
  "column (delay ms s) = column s"
  "maxColumn (delay ms s) = maxColumn s"
  "charHeight (delay ms s) = charHeight s"
  by (simp_all add: delay_def)

lemma testPage_fields [simp]:
  "printMode (testPage s) = printMode s"
  "column (testPage s) = column s"
  "maxColumn (testPage s) = maxColumn s"
  "charHeight (testPage s) = charHeight s"
  by (simp_all add: testPage_def writeBytes_def Let_def)

lemma setTimes_fields [simp]:
  "printMode (setTimes p f s) = printMode s"
  "column (setTimes p f s) = column s"
  "maxColumn (setTimes p f s) = maxColumn s"
  "charHeight (setTimes p f s) = charHeight s"
  by (simp_all add: setTimes_def writeBytes_def Let_def)

lemma setBarcodeHeight_fields [simp]:
  "printMode (setBarcodeHeight v s) = printMode s"
  "column (setBarcodeHeight v s) = column s"
  "maxColumn (setBarcodeHeight v s) = maxColumn s"
  "charHeight (setBarcodeHeight v s) = charHeight s"
  by (simp_all add: setBarcodeHeight_def writeBytes_def Let_def)

lemma writePrintMode_fields [simp]:
  "printMode (writePrintMode s) = printMode s"
  "column (writePrintMode s) = column s"
  "maxColumn (writePrintMode s) = maxColumn s"
  "charHeight (writePrintMode s) = charHeight s"
  by (simp_all add: writePrintMode_def writeBytes_def Let_def)

lemma justify_fields [simp]:
  "printMode (justify v s) = printMode s"
  "column (justify v s) = column s"
  "maxColumn (justify v s) = maxColumn s"
  "charHeight (justify v s) = charHeight s"
  by (simp_all add: justify_def writeBytes_def Let_def)

lemma flush_fields [simp]:
  "printMode (flush s) = printMode s"
  "column (flush s) = column s"
  "maxColumn (flush s) = maxColumn s"
  "charHeight (flush s) = charHeight s"
  by (simp_all add: flush_def writeBytes_def Let_def)

lemma underlineOn_fields [simp]:
  "printMode (underlineOn w s) = printMode s"
  "column (underlineOn w s) = column s"
  "maxColumn (underlineOn w s) = maxColumn s"
  "charHeight (underlineOn w s) = charHeight s"
  by (simp_all add: underlineOn_def writeBytes_def Let_def)

lemma underlineOff_fields [simp]:
  "printMode (underlineOff s) = printMode s"
  "column (underlineOff s) = column s"
  "maxColumn (underlineOff s) = maxColumn s"
  "charHeight (underlineOff s) = charHeight s"
  by (simp_all add: underlineOff_def writeBytes_def Let_def)

lemma finished_Some [simp]: "finished r = Some s' \<longleftrightarrow> r = Inr s'"
  by (cases r) (simp_all add: finished_def)

lemma printBitmap_fields:
  assumes "printBitmap cfg w h b s = Inr s'"
  shows "printMode s' = printMode s" "column s' = column s" "maxColumn s' = maxColumn s"
    "charHeight s' = charHeight s"
  using assms
  by (auto simp: printBitmap_def writeBytes_def Let_def split: if_splits sum.splits)

lemma defineBitImage_fields:
  assumes "defineBitImage cfg w h b s = Inr s'"
  shows "printMode s' = printMode s" "column s' = column s" "maxColumn s' = maxColumn s"
    "charHeight s' = charHeight s"
  using assms
  by (auto simp: defineBitImage_def writeBytes_def Let_def split: if_splits sum.splits)

lemma printDefinedBitImage_fields [simp]:
  "printMode (printDefinedBitImage m s) = printMode s"
  "column (printDefinedBitImage m s) = column s"
  "maxColumn (printDefinedBitImage m s) = maxColumn s"
  "charHeight (printDefinedBitImage m s) = charHeight s"
  by (simp_all add: printDefinedBitImage_def writeBytes_def Let_def)

lemma nv_image_fields:
  assumes "nv_image cfg rb cb cols b s = Inr s'"
  shows "printMode s' = printMode s" "column s' = column s" "maxColumn s' = maxColumn s"
    "charHeight s' = charHeight s"
  using assms
  by (auto simp: nv_image_def writeBytes_def Let_def split: if_splits sum.splits)

lemma defineNVBitmap_fields:
  assumes "defineNVBitmap cfg w h b s = Inr s'"
  shows "printMode s' = printMode s" "column s' = column s" "maxColumn s' = maxColumn s"
    "charHeight s' = charHeight s"
proof -
  from assms have
    "nv_image cfg (w sdiv 8) ((h + 7) sdiv 8) w b (writeBytes [0x1C, 0x71, 1] s) = Inr s'"
    by (auto simp: defineNVBitmap_def Let_def split: if_splits)
  from nv_image_fields [OF this]
  show "printMode s' = printMode s" "column s' = column s" "maxColumn s' = maxColumn s"
    "charHeight s' = charHeight s"
    by simp_all
qed

lemma defineNVBitmap2_fields:
  assumes "defineNVBitmap2 cfg w1 h1 b1 w2 h2 b2 s = Inr s'"
  shows "printMode s' = printMode s" "column s' = column s" "maxColumn s' = maxColumn s"
    "charHeight s' = charHeight s"
proof -
  from assms obtain s2 where
    a: "nv_image cfg (w1 sdiv 8) ((h1 + 7) sdiv 8) (w1 sdiv 8 * 8) b1
          (writeBytes [0x1C, 0x71, 2] s) = Inr s2" and
    b: "nv_image cfg (w2 sdiv 8) ((h2 + 7) sdiv 8) (w2 sdiv 8 * 8) b2 s2 = Inr s'"
    by (auto simp: defineNVBitmap2_def Let_def split: if_splits sum.splits)
  from nv_image_fields [OF a] nv_image_fields [OF b]
  show "printMode s' = printMode s" "column s' = column s" "maxColumn s' = maxColumn s"
    "charHeight s' = charHeight s"
    by simp_all
qed

lemma printNVBitmap_fields [simp]:
  "printMode (printNVBitmap n m s) = printMode s"
  "column (printNVBitmap n m s) = column s"
  "maxColumn (printNVBitmap n m s) = maxColumn s"
  "charHeight (printNVBitmap n m s) = charHeight s"
  by (simp_all add: printNVBitmap_def writeBytes_def Let_def)

lemma offline_fields [simp]:
  "printMode (offline s) = printMode s"
  "column (offline s) = column s"
  "maxColumn (offline s) = maxColumn s"
  "charHeight (offline s) = charHeight s"
  by (simp_all add: offline_def writeBytes_def Let_def)

lemma online_fields [simp]:
  "printMode (online s) = printMode s"
  "column (online s) = column s"
  "maxColumn (online s) = maxColumn s"
  "charHeight (online s) = charHeight s"
  by (simp_all add: online_def writeBytes_def Let_def)

lemma sleepAfter_fields [simp]:
  "printMode (sleepAfter cfg n s) = printMode s"
  "column (sleepAfter cfg n s) = column s"
  "maxColumn (sleepAfter cfg n s) = maxColumn s"
  "charHeight (sleepAfter cfg n s) = charHeight s"
  by (simp_all add: sleepAfter_def writeBytes_def Let_def)

lemma sleep_fields [simp]:
  "printMode (sleep cfg s) = printMode s"
  "column (sleep cfg s) = column s"
  "maxColumn (sleep cfg s) = maxColumn s"
  "charHeight (sleep cfg s) = charHeight s"
  by (simp_all add: sleep_def)

lemma setLineHeight_fields [simp]:
  "printMode (setLineHeight v s) = printMode s"
  "column (setLineHeight v s) = column s"
  "maxColumn (setLineHeight v s) = maxColumn s"
  "charHeight (setLineHeight v s) = charHeight s"
  by (simp_all add: setLineHeight_def writeBytes_def Let_def)

lemma setMaxChunkHeight_fields [simp]:
  "printMode (setMaxChunkHeight v s) = printMode s"
  "column (setMaxChunkHeight v s) = column s"
  "maxColumn (setMaxChunkHeight v s) = maxColumn s"
  "charHeight (setMaxChunkHeight v s) = charHeight s"
  by (simp_all add: setMaxChunkHeight_def writeBytes_def Let_def)

lemma setCharset_fields [simp]:
  "printMode (setCharset v s) = printMode s"
  "column (setCharset v s) = column s"
  "maxColumn (setCharset v s) = maxColumn s"
  "charHeight (setCharset v s) = charHeight s"
  by (simp_all add: setCharset_def writeBytes_def Let_def)

lemma setCodePage_fields [simp]:
  "printMode (setCodePage v s) = printMode s"
  "column (setCodePage v s) = column s"
  "maxColumn (setCodePage v s) = maxColumn s"
  "charHeight (setCodePage v s) = charHeight s"
  by (simp_all add: setCodePage_def writeBytes_def Let_def)

lemma setCharSpacing_fields [simp]:
  "printMode (setCharSpacing v s) = printMode s"
  "column (setCharSpacing v s) = column s"
  "maxColumn (setCharSpacing v s) = maxColumn s"
  "charHeight (setCharSpacing v s) = charHeight s"
  by (simp_all add: setCharSpacing_def writeBytes_def Let_def)

lemma cut_fields [simp]:
  "printMode (cut s) = printMode s"
  "column (cut s) = column s"
  "maxColumn (cut s) = maxColumn s"
  "charHeight (cut s) = charHeight s"
  by (simp_all add: cut_def writeBytes_def Let_def)

lemma beep_fields [simp]:
  "printMode (beep s) = printMode s"
  "column (beep s) = column s"
  "maxColumn (beep s) = maxColumn s"
  "charHeight (beep s) = charHeight s"
  by (simp_all add: beep_def writeBytes_def Let_def)

lemma setBeep_fields [simp]:
  "printMode (setBeep v s) = printMode s"
  "column (setBeep v s) = column s"
  "maxColumn (setBeep v s) = maxColumn s"
  "charHeight (setBeep v s) = charHeight s"
  by (simp_all add: setBeep_def writeBytes_def Let_def)

lemma reprintQRcode_fields [simp]:
  "printMode (reprintQRcode t s) = printMode s"
  "column (reprintQRcode t s) = column s"
  "maxColumn (reprintQRcode t s) = maxColumn s"
  "charHeight (reprintQRcode t s) = charHeight s"
  by (simp_all add: reprintQRcode_def Let_def)

lemma printQRcode_fields [simp]:
  "printMode (printQRcode str e ms m t s) = printMode s"
  "column (printQRcode str e ms m t s) = column s"
  "maxColumn (printQRcode str e ms m t s) = maxColumn s"
  "charHeight (printQRcode str e ms m t s) = charHeight s"
  by (simp_all add: printQRcode_def Let_def)

text \<open>
  The commands that set some of them.
\<close>

lemma feedRows_fields [simp]:
  "printMode (feedRows x s) = printMode s"
  "column (feedRows x s) = 0"
  "maxColumn (feedRows x s) = maxColumn s"
  "charHeight (feedRows x s) = charHeight s"
  by (simp_all add: feedRows_def)

lemma tab_fields [simp]:
  "printMode (tab s) = printMode s"
  "column (tab s) = (column s + 4) AND 252"
  "maxColumn (tab s) = maxColumn s"
  "charHeight (tab s) = charHeight s"
  by (simp_all add: tab_def)

lemma reset_fields [simp]:
  "printMode (reset cfg s) = printMode s"
  "column (reset cfg s) = 0"
  "maxColumn (reset cfg s) = 32"
  "charHeight (reset cfg s) = 24"
  by (simp_all add: reset_def Let_def)

lemma setSize_fields [simp]:
  "printMode (setSize v s) = printMode s"
  "column (setSize v s) = column s"
  "maxColumn (setSize v s) = (if toupper v = lit CHR ''L'' then 16 else 32)"
  "charHeight (setSize v s) =
     (if toupper v = lit CHR ''M'' \<or> toupper v = lit CHR ''L'' then 48 else 24)"
  by (simp_all add: setSize_def Let_def)

lemma setPrintMode_fields [simp]:
  "printMode (setPrintMode m s) = printMode s OR m"
  "column (setPrintMode m s) = column s"
  "maxColumn (setPrintMode m s) =
     (if (printMode s OR m) AND DOUBLE_WIDTH_MASK \<noteq> 0 then 16 else 32)"
  "charHeight (setPrintMode m s) =
     (if (printMode s OR m) AND DOUBLE_HEIGHT_MASK \<noteq> 0 then 48 else 24)"
  by (simp_all add: setPrintMode_def adjust_size_def writePrintMode_def writeBytes_def)

lemma unsetPrintMode_fields [simp]:
  "printMode (unsetPrintMode m s) = printMode s AND NOT m"
  "column (unsetPrintMode m s) = column s"
  "maxColumn (unsetPrintMode m s) =
     (if (printMode s AND NOT m) AND DOUBLE_WIDTH_MASK \<noteq> 0 then 16 else 32)"
  "charHeight (unsetPrintMode m s) =
     (if (printMode s AND NOT m) AND DOUBLE_HEIGHT_MASK \<noteq> 0 then 48 else 24)"
  by (simp_all add: unsetPrintMode_def adjust_size_def writePrintMode_def writeBytes_def)

lemma normal_fields [simp]:
  "printMode (normal s) = 0"
  "column (normal s) = column s"
  "maxColumn (normal s) = maxColumn s"
  "charHeight (normal s) = charHeight s"
  by (simp_all add: normal_def writePrintMode_def writeBytes_def)

text \<open>
  The write path and the loops built on it.
\<close>

lemma write_byte_fields [simp]:
  "printMode (write_byte cfg c s) = printMode s"
  "maxColumn (write_byte cfg c s) = maxColumn s"
  "charHeight (write_byte cfg c s) = charHeight s"
  by (simp_all add: write_byte_def write_d_def Let_def)

lemma write_byte_column_nonneg: "0 \<le> column s \<Longrightarrow> 0 \<le> column (write_byte cfg c s)"
  by (simp add: write_byte_def write_d_def Let_def)

lemma write_byte_column_le:
  "0 \<le> maxColumn s \<Longrightarrow> column s \<le> maxColumn s \<Longrightarrow> column (write_byte cfg c s) \<le> maxColumn s"
  by (simp add: write_byte_def write_d_def Let_def)

lemma fold_unchanged:
  assumes "\<And>c s. f (g c s) = f s"
  shows "f (fold g str s) = f s"
  by (induction str arbitrary: s) (simp_all add: assms)

lemma funpow_unchanged:
  assumes "\<And>s. f (g s) = f s"
  shows "f ((g ^^ n) s) = f s"
  by (induction n) (simp_all add: assms)

lemma print_str_fields [simp]:
  "printMode (print_str cfg text s) = printMode s"
  "maxColumn (print_str cfg text s) = maxColumn s"
  "charHeight (print_str cfg text s) = charHeight s"
  unfolding print_str_def by (simp_all add: fold_unchanged)

lemma print_str_column_nonneg: "0 \<le> column s \<Longrightarrow> 0 \<le> column (print_str cfg str s)"
  unfolding print_str_def
  by (induction str arbitrary: s) (simp_all add: write_byte_column_nonneg)

lemma print_str_column_le:
  "0 \<le> maxColumn s \<Longrightarrow> column s \<le> maxColumn s \<Longrightarrow> column (print_str cfg str s) \<le> maxColumn s"
  unfolding print_str_def
proof (induction str arbitrary: s)
  case Nil
  then show ?case by simp
next
  case (Cons c str)
  from Cons.prems have "column (write_byte cfg c s) \<le> maxColumn (write_byte cfg c s)"
    by (simp add: write_byte_column_le)
  moreover from Cons.prems have "0 \<le> maxColumn (write_byte cfg c s)" by simp
  ultimately show ?case using Cons.IH [of "write_byte cfg c s"] by simp
qed

lemma funpow_write_fields [simp]:
  "printMode ((write_byte cfg c ^^ n) s) = printMode s"
  "maxColumn ((write_byte cfg c ^^ n) s) = maxColumn s"
  "charHeight ((write_byte cfg c ^^ n) s) = charHeight s"
  by (simp_all add: funpow_unchanged)

lemma funpow_write_column_nonneg:
  "0 \<le> column s \<Longrightarrow> 0 \<le> column ((write_byte cfg c ^^ n) s)"
  by (induction n) (simp_all add: write_byte_column_nonneg)

lemma funpow_write_column_le:
  "0 \<le> maxColumn s \<Longrightarrow> column s \<le> maxColumn s \<Longrightarrow>
   column ((write_byte cfg c ^^ n) s) \<le> maxColumn s"
proof (induction n)
  case 0
  then show ?case by simp
next
  case (Suc n)
  then show ?case
    using write_byte_column_le [of "(write_byte cfg c ^^ n) s" cfg c] by simp
qed

lemma feed_fields [simp]:
  "printMode (feed cfg x s) = printMode s"
  "maxColumn (feed cfg x s) = maxColumn s"
  "charHeight (feed cfg x s) = charHeight s"
  by (simp_all add: feed_def writeBytes_def)

lemma feed_column_nonneg: "0 \<le> column s \<Longrightarrow> 0 \<le> column (feed cfg x s)"
  by (simp add: feed_def writeBytes_def funpow_write_column_nonneg)

lemma feed_column_le:
  "0 \<le> maxColumn s \<Longrightarrow> column s \<le> maxColumn s \<Longrightarrow> column (feed cfg x s) \<le> maxColumn s"
  by (simp add: feed_def writeBytes_def funpow_write_column_le)

lemma test_fields [simp]:
  "printMode (test cfg s) = printMode s"
  "maxColumn (test cfg s) = maxColumn s"
  "charHeight (test cfg s) = charHeight s"
  by (simp_all add: test_def println_def)

lemma test_column_nonneg: "0 \<le> column s \<Longrightarrow> 0 \<le> column (test cfg s)"
  by (simp add: test_def println_def feed_column_nonneg print_str_column_nonneg)

lemma test_column_le:
  "0 \<le> maxColumn s \<Longrightarrow> column s \<le> maxColumn s \<Longrightarrow> column (test cfg s) \<le> maxColumn s"
  using feed_column_le [of "println cfg (map lit ''Hello World!'') s" cfg 2]
    print_str_column_le [of "print_str cfg (map lit ''Hello World!'') s" cfg "[ASCII_CR, ASCII_LF]"]
    print_str_column_le [of s cfg "map lit ''Hello World!''"]
  by (simp add: test_def println_def)

lemma printBarcode_fields:
  assumes "printBarcode cfg text type s = Some s'"
  shows "printMode s' = printMode s" "maxColumn s' = maxColumn s" "charHeight s' = charHeight s"
    "column s' = column (feed cfg 1 s)"
  using assms by (auto simp: printBarcode_def writeBytes_def Let_def split: if_splits)

lemma funpow_writeBytes_fields [simp]:
  "printMode ((writeBytes bs ^^ n) s) = printMode s"
  "maxColumn ((writeBytes bs ^^ n) s) = maxColumn s"
  "charHeight ((writeBytes bs ^^ n) s) = charHeight s"
  "column ((writeBytes bs ^^ n) s) = column s"
  by (simp_all add: funpow_unchanged)

lemma wake_fields [simp]:
  "printMode (wake cfg s) = printMode s"
  "maxColumn (wake cfg s) = maxColumn s"
  "charHeight (wake cfg s) = charHeight s"
  "column (wake cfg s) = column s"
  by (simp_all add: wake_def Let_def)

lemma poll_status_fields:
  "printMode (snd (snd (poll_status rx i st p s))) = printMode s
   \<and> maxColumn (snd (snd (poll_status rx i st p s))) = maxColumn s
   \<and> charHeight (snd (snd (poll_status rx i st p s))) = charHeight s
   \<and> column (snd (snd (poll_status rx i st p s))) = column s"
proof (induction rx i st p s rule: poll_status.induct)
  case (1 rx i status polls s)
  show ?case
  proof (cases "i < 10")
    case False
    then show ?thesis by (subst (1 2 3 4) poll_status.simps) simp
  next
    case True
    show ?thesis
    proof (cases "rx i")
      case None
      with True "1.IH" show ?thesis
        by (subst (1 2 3 4) poll_status.simps) (simp add: delay_def)
    next
      case (Some b)
      with True show ?thesis by (subst (1 2 3 4) poll_status.simps) simp
    qed
  qed
qed

lemma hasPaper_fields [simp]:
  "printMode (snd (hasPaper rx s)) = printMode s"
  "maxColumn (snd (hasPaper rx s)) = maxColumn s"
  "charHeight (snd (hasPaper rx s)) = charHeight s"
  "column (snd (hasPaper rx s)) = column s"
  using poll_status_fields [of rx 0 "- 1" 0 "writeBytes [0x10, 0x04, 4] s"]
  by (simp_all add: hasPaper_def hasPaper_polls_def Let_def writeBytes_def case_prod_beta)

lemma ada_loop_fields:
  assumes "ada_loop cfg bm h L rb rbc r i hs s = Some y"
  shows "case y of Inl f \<Rightarrow> True
         | Inr z \<Rightarrow> printMode (snd z) = printMode s \<and> maxColumn (snd z) = maxColumn s
             \<and> charHeight (snd z) = charHeight s \<and> column (snd z) = column s"
proof (rule ada_loop.raw_induct
         [where P = "\<lambda>cfg bm h L rb rbc r i hs s y. case y of Inl f \<Rightarrow> True
           | Inr z \<Rightarrow> printMode (snd z) = printMode s \<and> maxColumn (snd z) = maxColumn s
             \<and> charHeight (snd z) = charHeight s \<and> column (snd z) = column s", OF _ assms],
       goal_cases)
  case (1 f cfg bm h L rb rbc r i hs s y)
  show ?case
  proof (cases "r < h")
    case True
    let ?ch = "if h - r > L then L else h - r"
    let ?s1 = "writeBytes [ASCII_ESC, lit CHR ''*'', word_of_int ?ch, word_of_int rbc] s"
    show ?thesis
    proof (cases y)
      case (Inl e)
      then show ?thesis by simp
    next
      case (Inr z)
      with 1(2) True obtain rows where
        "f cfg bm h L rb rbc (r + L) (snd rows) (hs @ [?ch]) (writeBytes (fst rows) ?s1)
          = Some y"
        by (auto simp: Let_def split: sum.splits if_splits)
      from 1(1) [OF this] Inr show ?thesis by simp
    qed
  next
    case False
    with 1 show ?thesis by auto
  qed
qed

lemma printBitmap_ada_fields:
  assumes "printBitmap_ada cfg w h bm s = Some s'"
  shows "printMode s' = printMode s" "maxColumn s' = maxColumn s" "charHeight s' = charHeight s"
    "column s' = column s"
proof -
  from assms obtain rb L hs s1 where
    "ada_loop cfg bm h L rb (ada_rowBytesClipped rb) 0 0 [] s = Some (Inr (hs, s1))"
    and "s' = s1\<lparr>prevByte := lit CHR 0x0A\<rparr>"
    by (auto simp: printBitmap_ada_def printBitmap_ada_chunks_def returned_def Let_def
          split: option.splits sum.splits)
  with ada_loop_fields [of cfg bm h L rb "ada_rowBytesClipped rb" 0 0 "[]" s "Inr (hs, s1)"]
  show "printMode s' = printMode s" "maxColumn s' = maxColumn s"
    "charHeight s' = charHeight s" "column s' = column s"
    by simp_all
qed

lemma ada_stream_loop_fields:
  assumes "ada_stream_loop cfg h L rb rbc r rs s = Some y"
  shows "case y of Inl f \<Rightarrow> True
         | Inr z \<Rightarrow> printMode (snd z) = printMode s \<and> maxColumn (snd z) = maxColumn s
             \<and> charHeight (snd z) = charHeight s \<and> column (snd z) = column s"
proof (rule ada_stream_loop.raw_induct
         [where P = "\<lambda>cfg h L rb rbc r rs s y. case y of Inl f \<Rightarrow> True
           | Inr z \<Rightarrow> printMode (snd z) = printMode s \<and> maxColumn (snd z) = maxColumn s
             \<and> charHeight (snd z) = charHeight s \<and> column (snd z) = column s", OF _ assms],
       goal_cases)
  case (1 f cfg h L rb rbc r rs s y)
  show ?case
  proof (cases "r < h")
    case True
    let ?ch = "if h - r > L then L else h - r"
    let ?s1 = "writeBytes [ASCII_ESC, lit CHR ''*'', word_of_int ?ch, word_of_int rbc] s"
    show ?thesis
    proof (cases y)
      case (Inl e)
      then show ?thesis by simp
    next
      case (Inr z)
      with 1(2) True obtain rows where
        "f cfg h L rb rbc (r + L) (snd rows) (writeBytes (fst rows) ?s1) = Some y"
        by (auto simp: Let_def split: option.splits sum.splits if_splits)
      from 1(1) [OF this] Inr show ?thesis by simp
    qed
  next
    case False
    with 1 show ?thesis by auto
  qed
qed

lemma printBitmap_ada_stream_fields:
  assumes "returned (printBitmap_ada_stream cfg w h rs s) = Some s'"
  shows "printMode s' = printMode s" "maxColumn s' = maxColumn s"
    "charHeight s' = charHeight s" "column s' = column s"
proof -
  from assms obtain rb L rs1 s1 where
    "ada_stream_loop cfg h L rb (ada_rowBytesClipped rb) 0 rs s = Some (Inr (rs1, s1))"
    and "s' = s1\<lparr>prevByte := lit CHR 0x0A\<rparr>"
    by (auto simp: printBitmap_ada_stream_def returned_def Let_def
          split: option.splits sum.splits)
  with ada_stream_loop_fields [of cfg h L rb "ada_rowBytesClipped rb" 0 rs s "Inr (rs1, s1)"]
  show "printMode s' = printMode s" "maxColumn s' = maxColumn s"
    "charHeight s' = charHeight s" "column s' = column s"
    by simp_all
qed

lemma printBitmap_ada_header_fields:
  assumes "returned (printBitmap_ada_header cfg rs s) = Some s'"
  shows "printMode s' = printMode s" "maxColumn s' = maxColumn s"
    "charHeight s' = charHeight s" "column s' = column s"
  using assms unfolding printBitmap_ada_header_def Let_def
  by (rule printBitmap_ada_stream_fields)+

lemmas partial_op_fields = printBarcode_fields printBitmap_ada_fields
  printBitmap_ada_stream_fields printBitmap_ada_header_fields printBitmap_fields
  defineBitImage_fields defineNVBitmap_fields defineNVBitmap2_fields

lemma setDefault_fields [simp]:
  "column (setDefault cfg s) = column s"
  "maxColumn (setDefault cfg s) = 32"
  "charHeight (setDefault cfg s) = 24"
  by (simp_all add: setDefault_def toggle_defs toupper_def Let_def)

lemma begin_fields [simp]:
  "column (begin_printer cfg heatTime s) = 0"
  "maxColumn (begin_printer cfg heatTime s) = 32"
  "charHeight (begin_printer cfg heatTime s) = 24"
  by (simp_all add: begin_printer_def Let_def)

subsection \<open>One operation, then a sequence\<close>

lemma step_maxColumn_aux:
  assumes "maxColumn s = 16 \<or> maxColumn s = 32"
  shows "case step cfg x s of None \<Rightarrow> True | Some s' \<Rightarrow> maxColumn s' = 16 \<or> maxColumn s' = 32"
proof (cases x)
  case (PrintBarcode str type)
  then show ?thesis using assms by (simp add: printBarcode_fields split: option.split)
next
  case (PrintBitmap_ada w h b)
  then show ?thesis using assms by (simp add: printBitmap_ada_fields split: option.split)
next
  case (PrintBitmap_ada_stream w h rs)
  then show ?thesis using assms
    by (auto simp: printBitmap_ada_stream_fields split: option.split)
next
  case (PrintBitmap_ada_header rs)
  then show ?thesis using assms
    by (auto simp: printBitmap_ada_header_fields split: option.split)
next
  case (PrintBitmap w h b)
  then show ?thesis using assms by (auto simp: printBitmap_fields split: option.split)
next
  case (DefineBitImage w h b)
  then show ?thesis using assms by (auto simp: defineBitImage_fields split: option.split)
next
  case (DefineNVBitmap w h b)
  then show ?thesis using assms by (auto simp: defineNVBitmap_fields split: option.split)
next
  case (DefineNVBitmap2 w1 h1 b1 w2 h2 b2)
  then show ?thesis using assms by (auto simp: defineNVBitmap2_fields split: option.split)
qed (use assms in \<open>simp_all add: toggle_defs\<close>)

lemma step_maxColumn:
  assumes "step cfg x s = Some s'" "maxColumn s = 16 \<or> maxColumn s = 32"
  shows "maxColumn s' = 16 \<or> maxColumn s' = 32"
  using step_maxColumn_aux [OF assms(2), of cfg x] assms(1) by simp

lemma step_column_nonneg:
  assumes "step cfg x s = Some s'" "0 \<le> column s"
  shows "0 \<le> column s'"
  using assms
  by (cases x)
     (auto simp: toggle_defs write_byte_column_nonneg feed_column_nonneg test_column_nonneg
        partial_op_fields)

text \<open>
  \<open>tab\<close> rounds the column up to the next multiple of 4: from a column short of the
  line width it stays within the line, from a full line it leaves it.
\<close>

lemma and_minus_4: "(x::int) AND (- 4) = 4 * (x div 4)"
proof -
  have e: "Suc (Suc (n - 2)) = n" if "2 \<le> n" for n :: nat
    using that by arith
  have "x AND NOT (mask 2) = push_bit 2 (drop_bit 2 x)"
    by (rule bit_eqI) (auto simp: bit_simps e not_less)
  then show ?thesis
    by (simp add: mask_eq_exp_minus_1 push_bit_eq_mult drop_bit_eq_div not_int_def)
qed

lemma and_252_le:
  fixes x :: int
  assumes "0 \<le> x"
  shows "x AND 252 \<le> 4 * (x div 4)"
proof -
  have "x AND 252 = (x AND (- 4)) AND 252"
    by (simp add: and.assoc)
  also have "\<dots> \<le> x AND (- 4)"
    using assms by (intro AND_upper1) (simp add: and_minus_4 pos_imp_zdiv_nonneg_iff)
  finally show ?thesis by (simp add: and_minus_4)
qed

lemma tab_in_range:
  fixes c m :: int
  assumes "0 \<le> c" "c < m" "m = 16 \<or> m = 32"
  shows "(c + 4) AND 252 \<le> m"
proof -
  have "(c + 4) AND 252 \<le> 4 * ((c + 4) div 4)"
    using assms(1) by (intro and_252_le) simp
  also have "\<dots> \<le> m" using assms by arith
  finally show ?thesis .
qed

lemma tab_out_of_range:
  fixes m :: int
  assumes "m = 16 \<or> m = 32"
  shows "m < (m + 4) AND 252"
  using assms by auto

text \<open>
  What a step other than \<open>tab\<close> does to column and line width: it leaves the column
  alone, or it sets the column to 0 and does not narrow the line, or it leaves the line
  width alone and the column within it.
\<close>

lemma step_column_cases:
  assumes "maxColumn s = 16 \<or> maxColumn s = 32" "column s \<le> maxColumn s"
  shows "case step cfg x s of
           None \<Rightarrow> True
         | Some s' \<Rightarrow> is_tab x \<or> column s' = column s
             \<or> (column s' = 0 \<and> maxColumn s \<le> maxColumn s')
             \<or> (column s' \<le> maxColumn s \<and> maxColumn s' = maxColumn s)"
proof -
  have m: "0 \<le> maxColumn s" using assms(1) by auto
  note le = write_byte_column_le [OF m assms(2)] feed_column_le [OF m assms(2)]
    test_column_le [OF m assms(2)] print_str_column_le [OF m assms(2)]
  show ?thesis
  proof (cases x)
    case (PrintBarcode str type)
    then show ?thesis using le
      by (simp add: printBarcode_fields split: option.split)
  next
    case (PrintBitmap_ada w h b)
    then show ?thesis by (simp add: printBitmap_ada_fields split: option.split)
  next
    case (PrintBitmap_ada_stream w h rs)
    then show ?thesis by (auto simp: printBitmap_ada_stream_fields split: option.split)
  next
    case (PrintBitmap_ada_header rs)
    then show ?thesis by (auto simp: printBitmap_ada_header_fields split: option.split)
  next
    case (PrintBitmap w h b)
    then show ?thesis by (auto simp: printBitmap_fields split: option.split)
  next
    case (DefineBitImage w h b)
    then show ?thesis by (auto simp: defineBitImage_fields split: option.split)
  next
    case (DefineNVBitmap w h b)
    then show ?thesis by (auto simp: defineNVBitmap_fields split: option.split)
  next
    case (DefineNVBitmap2 w1 h1 b1 w2 h2 b2)
    then show ?thesis by (auto simp: defineNVBitmap2_fields split: option.split)
  next
    case (Begin heatTime)
    then show ?thesis using assms(1) by auto
  next
    case Reset
    then show ?thesis using assms(1) by auto
  qed (use le in \<open>simp_all add: toggle_defs\<close>)
qed

lemma step_column_le:
  assumes "step cfg x s = Some s'" "\<not> overruns cfg x s" "maxColumn s = 16 \<or> maxColumn s = 32"
    "0 \<le> column s" "column s \<le> maxColumn s"
  shows "column s' \<le> maxColumn s'"
proof (cases "is_tab x")
  case True
  then have x: "x = Tab" by (cases x) simp_all
  from assms(2) x have "column s \<noteq> maxColumn s" by (simp add: overruns_def)
  with assms(5) have "column s < maxColumn s" by simp
  from tab_in_range [OF assms(4) this assms(3)] assms(1) x show ?thesis
    by (auto simp: tab_def)
next
  case False
  from assms(2) assms(1) have n: "\<not> (maxColumn s' < maxColumn s \<and> maxColumn s' < column s)"
    by (simp add: overruns_def)
  from step_maxColumn [OF assms(1) assms(3)] have m': "0 \<le> maxColumn s'" by auto
  from step_column_cases [OF assms(3) assms(5), where cfg = cfg and x = x] assms(1) False
  consider "column s' = column s" | "column s' = 0 \<and> maxColumn s \<le> maxColumn s'"
    | "column s' \<le> maxColumn s \<and> maxColumn s' = maxColumn s"
    by auto
  then show ?thesis
  proof cases
    case 1
    with n assms(5) show ?thesis by auto
  next
    case 2
    with m' show ?thesis by simp
  next
    case 3
    then show ?thesis by simp
  qed
qed

text \<open>
  A step of one of the two kinds, taken with the column in range, leaves it out of
  range.
\<close>

lemma overruns_leaves_range:
  assumes "step cfg x s = Some s'" "overruns cfg x s" "maxColumn s = 16 \<or> maxColumn s = 32"
    "column s \<le> maxColumn s"
  shows "maxColumn s' < column s'"
proof (cases "is_tab x \<and> column s = maxColumn s")
  case True
  then have x: "x = Tab" by (cases x) simp_all
  from tab_out_of_range [OF assms(3)] True assms(1) x show ?thesis
    by (auto simp: tab_def)
next
  case False
  with assms(1,2) have n: "maxColumn s' < maxColumn s" "maxColumn s' < column s"
    by (auto simp: overruns_def)
  have nt: "\<not> is_tab x"
  proof
    assume "is_tab x"
    then have "x = Tab" by (cases x) simp_all
    with assms(1) n(1) show False by (auto simp: tab_def)
  qed
  from step_column_cases [OF assms(3) assms(4), where cfg = cfg and x = x] assms(1) nt
  consider "column s' = column s" | "column s' = 0 \<and> maxColumn s \<le> maxColumn s'"
    | "column s' \<le> maxColumn s \<and> maxColumn s' = maxColumn s"
    by auto
  then show ?thesis
  proof cases
    case 1
    with n show ?thesis by simp
  next
    case 2
    with n show ?thesis by simp
  next
    case 3
    with n show ?thesis by simp
  qed
qed

lemma run_column:
  assumes "run cfg ops s = Some s'" "0 \<le> column s" "maxColumn s = 16 \<or> maxColumn s = 32"
  shows "0 \<le> column s' \<and> (maxColumn s' = 16 \<or> maxColumn s' = 32)
       \<and> (column s \<le> maxColumn s \<and> never_overruns cfg ops s \<longrightarrow> column s' \<le> maxColumn s')"
  using assms
proof (induction ops arbitrary: s)
  case Nil
  then show ?case by simp
next
  case (Cons x ops)
  from Cons.prems(1) obtain s1 where s1: "step cfg x s = Some s1" "run cfg ops s1 = Some s'"
    by (cases "step cfg x s") simp_all
  note a = step_column_nonneg [OF s1(1) Cons.prems(2)]
  note b = step_maxColumn [OF s1(1) Cons.prems(3)]
  note ih = Cons.IH [OF s1(2) a b]
  have "column s1 \<le> maxColumn s1"
    if "column s \<le> maxColumn s" "\<not> overruns cfg x s"
    using step_column_le [OF s1(1) that(2) Cons.prems(3) Cons.prems(2) that(1)] .
  with ih s1(1) show ?case by simp
qed

lemma in_range_throughout_start:
  "in_range_throughout cfg ops s \<Longrightarrow> column s \<le> maxColumn s"
  by (cases ops) simp_all

lemma run_in_range:
  assumes "run cfg ops s = Some s'" "0 \<le> column s" "maxColumn s = 16 \<or> maxColumn s = 32"
    "column s \<le> maxColumn s"
  shows "in_range_throughout cfg ops s \<longleftrightarrow> never_overruns cfg ops s"
  using assms
proof (induction ops arbitrary: s)
  case Nil
  then show ?case by simp
next
  case (Cons x ops)
  from Cons.prems(1) obtain s1 where s1: "step cfg x s = Some s1" "run cfg ops s1 = Some s'"
    by (cases "step cfg x s") simp_all
  note a = step_column_nonneg [OF s1(1) Cons.prems(2)]
  note b = step_maxColumn [OF s1(1) Cons.prems(3)]
  show ?case
  proof (cases "overruns cfg x s")
    case True
    from overruns_leaves_range [OF s1(1) True Cons.prems(3) Cons.prems(4)]
    have "\<not> in_range_throughout cfg ops s1"
      using in_range_throughout_start [of cfg ops s1] by auto
    with True s1(1) show ?thesis by simp
  next
    case False
    note c = step_column_le [OF s1(1) False Cons.prems(3) Cons.prems(2) Cons.prems(4)]
    from Cons.IH [OF s1(2) a b c] False s1(1) Cons.prems(4) show ?thesis by simp
  qed
qed

text \<open>
  An operation outside the list of those that can narrow the line never does.
\<close>

lemma double_width_bit: "bit (DOUBLE_WIDTH_MASK :: 8 word) n \<longleftrightarrow> n = 5"
proof -
  have e: "(DOUBLE_WIDTH_MASK :: 8 word) = 2 ^ 5" by (simp add: DOUBLE_WIDTH_MASK_def)
  have x: "bit ((2 :: 8 word) ^ 5) n \<longleftrightarrow> possible_bit TYPE(8 word) n \<and> n = 5"
    by (rule bit_exp_iff)
  show ?thesis unfolding e x by auto
qed

lemma double_width_cleared:
  fixes p m :: "8 word"
  assumes "m AND DOUBLE_WIDTH_MASK \<noteq> 0"
  shows "(p AND NOT m) AND DOUBLE_WIDTH_MASK = 0"
proof -
  note b = double_width_bit
  from assms obtain n where "bit (m AND DOUBLE_WIDTH_MASK) n"
    by (auto simp: bit_eq_iff)
  then have m5: "bit m 5" by (auto simp: bit_and_iff b)
  show ?thesis
    by (rule bit_eqI) (auto simp: bit_and_iff bit_not_iff b m5)
qed

lemma step_keeps_width_aux:
  assumes "\<not> can_narrow cfg x" "maxColumn s = 16 \<or> maxColumn s = 32"
  shows "case step cfg x s of None \<Rightarrow> True | Some s' \<Rightarrow> maxColumn s \<le> maxColumn s'"
proof (cases x)
  case (PrintBarcode str type)
  then show ?thesis using assms by (simp add: printBarcode_fields split: option.split)
next
  case (PrintBitmap_ada w h b)
  then show ?thesis using assms by (simp add: printBitmap_ada_fields split: option.split)
next
  case (PrintBitmap_ada_stream w h rs)
  then show ?thesis using assms
    by (auto simp: printBitmap_ada_stream_fields split: option.split)
next
  case (PrintBitmap_ada_header rs)
  then show ?thesis using assms
    by (auto simp: printBitmap_ada_header_fields split: option.split)
next
  case (PrintBitmap w h b)
  then show ?thesis using assms by (auto simp: printBitmap_fields split: option.split)
next
  case (DefineBitImage w h b)
  then show ?thesis using assms by (auto simp: defineBitImage_fields split: option.split)
next
  case (DefineNVBitmap w h b)
  then show ?thesis using assms by (auto simp: defineNVBitmap_fields split: option.split)
next
  case (DefineNVBitmap2 w1 h1 b1 w2 h2 b2)
  then show ?thesis using assms by (auto simp: defineNVBitmap2_fields split: option.split)
next
  case (UnsetPrintMode m)
  then show ?thesis using assms by (auto simp: double_width_cleared)
next
  case DoubleWidthOff
  have "(DOUBLE_WIDTH_MASK :: 8 word) AND DOUBLE_WIDTH_MASK \<noteq> 0"
    by (simp add: DOUBLE_WIDTH_MASK_def)
  from double_width_cleared [OF this] DoubleWidthOff assms show ?thesis
    by (auto simp: doubleWidthOff_def)
qed (use assms in \<open>auto simp: toggle_defs\<close>)

lemma or_absorb_word:
  fixes x m :: "8 word"
  assumes "x AND m = m"
  shows "x OR m = x"
proof -
  have "x OR (x AND m) = x" by (rule word_ao_absorbs)
  then show ?thesis by (simp add: assms)
qed

lemma and_not_absorb_word:
  fixes x m :: "8 word"
  assumes "x AND m = 0"
  shows "x AND NOT m = x"
proof (rule bit_eqI)
  fix n
  assume "possible_bit TYPE(8 word) n"
  from assms have "\<not> (bit x n \<and> bit m n)"
  proof -
    have "bit (x AND m) n = bit (0 :: 8 word) n" by (simp add: assms)
    then show ?thesis by (simp add: bit_and_iff)
  qed
  then show "bit (x AND NOT m) n = bit x n"
    by (auto simp: bit_and_iff bit_not_iff dest: bit_imp_le_length)
qed

lemma step_consistent_aux:
  assumes "consistent s" "\<not> decouples x"
  shows "case step cfg x s of None \<Rightarrow> True | Some s' \<Rightarrow> consistent s'"
proof (cases x)
  case (PrintBarcode str type)
  then show ?thesis using assms by (simp add: consistent_def printBarcode_fields split: option.split)
next
  case (PrintBitmap_ada w h b)
  then show ?thesis using assms by (simp add: consistent_def printBitmap_ada_fields split: option.split)
next
  case (PrintBitmap_ada_stream w h rs)
  then show ?thesis using assms
    by (auto simp: consistent_def printBitmap_ada_stream_fields split: option.split)
next
  case (PrintBitmap_ada_header rs)
  then show ?thesis using assms
    by (auto simp: consistent_def printBitmap_ada_header_fields split: option.split)
next
  case (PrintBitmap w h b)
  then show ?thesis using assms by (auto simp: consistent_def printBitmap_fields split: option.split)
next
  case (DefineBitImage w h b)
  then show ?thesis using assms by (auto simp: consistent_def defineBitImage_fields split: option.split)
next
  case (DefineNVBitmap w h b)
  then show ?thesis using assms by (auto simp: consistent_def defineNVBitmap_fields split: option.split)
next
  case (DefineNVBitmap2 w1 h1 b1 w2 h2 b2)
  then show ?thesis using assms by (auto simp: consistent_def defineNVBitmap2_fields split: option.split)
qed (use assms in \<open>simp_all add: consistent_def toggle_defs\<close>)

lemma run_consistent:
  assumes "run cfg ops s = Some s'" "consistent s" "\<forall>x \<in> set ops. \<not> decouples x"
  shows "consistent s'"
  using assms
proof (induction ops arbitrary: s)
  case Nil
  then show ?case by simp
next
  case (Cons x ops)
  from Cons.prems(1) obtain s1 where s1: "step cfg x s = Some s1" "run cfg ops s1 = Some s'"
    by (cases "step cfg x s") simp_all
  have "consistent s1"
    using step_consistent_aux [of s x cfg] Cons.prems(2,3) s1(1) by simp
  from Cons.IH [OF s1(2) this] Cons.prems(3) show ?case by simp
qed

text \<open>
  A sequence without \<open>tab\<close> and without an operation that can narrow the line has
  no step that overruns. Each of the operations that can narrow the line does so in a
  state that can be reached from \<open>reset\<close>, and leaves the column beyond the line.
\<close>

lemma no_narrowing_never_overruns:
  assumes "run cfg ops s = Some s'" "maxColumn s = 16 \<or> maxColumn s = 32"
    "\<forall>x \<in> set ops. \<not> is_tab x \<and> \<not> can_narrow cfg x"
  shows "never_overruns cfg ops s"
  using assms
proof (induction ops arbitrary: s)
  case Nil
  then show ?case by simp
next
  case (Cons x ops)
  from Cons.prems(1) obtain s1 where s1: "step cfg x s = Some s1" "run cfg ops s1 = Some s'"
    by (cases "step cfg x s") simp_all
  from Cons.prems(3) have x: "\<not> is_tab x" "\<not> can_narrow cfg x" by simp_all
  from step_keeps_width_aux [OF x(2) Cons.prems(2)] s1(1)
  have "maxColumn s \<le> maxColumn s1" by simp
  with x(1) s1(1) have "\<not> overruns cfg x s" by (simp add: overruns_def)
  moreover from Cons.IH [OF s1(2) step_maxColumn [OF s1(1) Cons.prems(2)]] Cons.prems(3)
  have "never_overruns cfg ops s1" by simp
  ultimately show ?case using s1(1) by simp
qed

lemma flagged_wide_fields:
  "printMode (flagged_wide cfg) = DOUBLE_WIDTH_MASK"
  "column (flagged_wide cfg) = 20"
  "maxColumn (flagged_wide cfg) = 32"
  by (simp_all add: flagged_wide_def doubleWidthOn_def zeroed_def)

lemma can_narrow_overruns:
  assumes "can_narrow cfg x"
  shows "\<exists>s'. step cfg x (flagged_wide cfg) = Some s' \<and> column s' = 20 \<and> maxColumn s' = 16
           \<and> overruns cfg x (flagged_wide cfg)"
proof -
  have dw: "(DOUBLE_WIDTH_MASK OR m) AND DOUBLE_WIDTH_MASK \<noteq> (0 :: 8 word)" for m
  proof
    assume "(DOUBLE_WIDTH_MASK OR m) AND DOUBLE_WIDTH_MASK = (0 :: 8 word)"
    then have "bit ((DOUBLE_WIDTH_MASK OR m) AND DOUBLE_WIDTH_MASK) 5 = bit (0 :: 8 word) 5"
      by simp
    then show False by (simp add: bit_and_iff bit_or_iff double_width_bit)
  qed
  have dw': "(DOUBLE_WIDTH_MASK AND NOT m) AND DOUBLE_WIDTH_MASK \<noteq> (0 :: 8 word)"
    if "m AND DOUBLE_WIDTH_MASK = 0" for m
  proof
    assume "(DOUBLE_WIDTH_MASK AND NOT m) AND DOUBLE_WIDTH_MASK = (0 :: 8 word)"
    then have "bit ((DOUBLE_WIDTH_MASK AND NOT m) AND DOUBLE_WIDTH_MASK) 5 = bit (0 :: 8 word) 5"
      by simp
    moreover have "bit (m AND DOUBLE_WIDTH_MASK) 5 = bit (0 :: 8 word) 5" using that by simp
    ultimately show False by (simp add: bit_and_iff bit_not_iff double_width_bit)
  qed
  have z: "INVERSE_MASK AND DOUBLE_WIDTH_MASK = (0 :: 8 word)"
    "UPDOWN_MASK AND DOUBLE_WIDTH_MASK = (0 :: 8 word)"
    "BOLD_MASK AND DOUBLE_WIDTH_MASK = (0 :: 8 word)"
    "DOUBLE_HEIGHT_MASK AND DOUBLE_WIDTH_MASK = (0 :: 8 word)"
    "STRIKE_MASK AND DOUBLE_WIDTH_MASK = (0 :: 8 word)"
    by (simp_all add: mask_defs)
  note u = z [THEN dw']
  have nz: "(DOUBLE_WIDTH_MASK :: 8 word) \<noteq> 0" by (simp add: DOUBLE_WIDTH_MASK_def)
  note f = flagged_wide_fields [of cfg]
  show ?thesis
    using assms
    by (cases x)
       (simp_all add: overruns_def f dw toggle_defs dw' u nz)
qed

subsection \<open>The status poll\<close>

lemma poll_status_none:
  "i \<le> 10 \<Longrightarrow> \<forall>j. i \<le> j \<and> j < 10 \<longrightarrow> rx j = None \<Longrightarrow>
   poll_status rx i st p s = (st, p + (10 - i), s\<lparr>waited := waited s + 100 * (10 - i)\<rparr>)"
proof (induction rx i st p s rule: poll_status.induct)
  case (1 rx i status polls s)
  show ?case
  proof (cases "i < 10")
    case True
    then have none: "rx i = None" using "1.prems" by simp
    have "poll_status rx (i + 1) status (polls + 1) (delay 100 s) =
          (status, polls + 1 + (10 - (i + 1)),
           (delay 100 s)\<lparr>waited := waited (delay 100 s) + 100 * (10 - (i + 1))\<rparr>)"
      using "1.IH" [OF True none] True "1.prems" by simp
    then show ?thesis using True none
      by (subst poll_status.simps) (simp add: delay_def)
  next
    case False
    then show ?thesis using "1.prems" by (subst poll_status.simps) simp
  qed
qed

lemma poll_status_some:
  "i \<le> j \<Longrightarrow> j < 10 \<Longrightarrow> rx j = Some b \<Longrightarrow> \<forall>k. i \<le> k \<and> k < j \<longrightarrow> rx k = None \<Longrightarrow>
   poll_status rx i st p s = (uint b, p + (j - i) + 1, s\<lparr>waited := waited s + 100 * (j - i)\<rparr>)"
proof (induction rx i st p s rule: poll_status.induct)
  case (1 rx i status polls s)
  show ?case
  proof (cases "i = j")
    case True
    then show ?thesis using "1.prems" by (subst poll_status.simps) simp
  next
    case False
    then have lt: "i < j" using "1.prems" by simp
    then have i10: "i < 10" using "1.prems" by simp
    have none: "rx i = None" using "1.prems" lt by simp
    have "poll_status rx (i + 1) status (polls + 1) (delay 100 s) =
          (uint b, polls + 1 + (j - (i + 1)) + 1,
           (delay 100 s)\<lparr>waited := waited (delay 100 s) + 100 * (j - (i + 1))\<rparr>)"
      using "1.IH" [OF i10 none] lt "1.prems" by simp
    then show ?thesis using i10 none lt
      by (subst poll_status.simps) (simp add: delay_def)
  qed
qed

lemma first_available:
  assumes "\<exists>i<10. rx i \<noteq> None"
  obtains j b where "j < (10::nat)" "rx j = Some b" "\<forall>k<j. rx k = None"
proof -
  define j where "j = (LEAST i. rx i \<noteq> None)"
  from assms obtain i where i: "i < 10" "rx i \<noteq> None" by blast
  have a: "rx j \<noteq> None" unfolding j_def using i(2) by (rule LeastI)
  have b: "j \<le> i" unfolding j_def using i(2) by (rule Least_le)
  have c: "\<forall>k<j. rx k = None" unfolding j_def using not_less_Least by blast
  from a obtain b' where "rx j = Some b'" by blast
  with b i(1) c that show thesis by (meson le_less_trans)
qed

lemma uint_bit2:
  fixes b :: "8 word"
  shows "(uint b AND 4 = 0) \<longleftrightarrow> (b AND 4 = 0)"
proof -
  have "uint (b AND 4) = uint b AND 4" by (simp add: uint_and)
  then show ?thesis by (metis uint_0_iff)
qed

lemma hasPaper_polls_some:
  assumes j: "j < 10" "rx j = Some b" "\<forall>k<j. rx k = None"
  shows "hasPaper_polls rx s =
    (b AND 4 = 0, j + 1, (writeBytes [0x10, 0x04, 4] s)\<lparr>waited := waited s + 100 * j\<rparr>)"
proof -
  have ps: "poll_status rx 0 (- 1) 0 (writeBytes [0x10, 0x04, 4] s) =
      (uint b, 0 + (j - 0) + 1,
       (writeBytes [0x10, 0x04, 4] s)\<lparr>waited := waited (writeBytes [0x10, 0x04, 4] s) + 100 * (j - 0)\<rparr>)"
    by (rule poll_status_some) (use j in auto)
  show ?thesis
    using ps uint_bit2 [of b] by (simp add: hasPaper_polls_def writeBytes_def)
qed

lemma hasPaper_polls_none:
  assumes "\<forall>i<10. rx i = None"
  shows "hasPaper_polls rx s =
    (False, 10, (writeBytes [0x10, 0x04, 4] s)\<lparr>waited := waited s + 1000\<rparr>)"
proof -
  have ps: "poll_status rx 0 (- 1) 0 (writeBytes [0x10, 0x04, 4] s) =
      (- 1, 0 + (10 - 0),
       (writeBytes [0x10, 0x04, 4] s)\<lparr>waited := waited (writeBytes [0x10, 0x04, 4] s) + 100 * (10 - 0)\<rparr>)"
    by (rule poll_status_none) (use assms in auto)
  show ?thesis
    using ps by (simp add: hasPaper_polls_def writeBytes_def)
qed

lemma first_unique:
  fixes rx :: "nat \<Rightarrow> 8 word option"
  assumes "rx j = Some b" "\<forall>k<j. rx k = None" "rx i = Some b'" "\<forall>k<i. rx k = None"
  shows "i = j \<and> b' = b"
proof -
  have "\<not> i < j" using assms(2,3) by auto
  moreover have "\<not> j < i" using assms(1,4) by auto
  ultimately have "i = j" by simp
  with assms(1,3) show ?thesis by simp
qed

subsection \<open>The chunk loop\<close>





















subsection \<open>Bytes outside a range\<close>

lemma outside_48_51:
  fixes e :: "8 word"
  assumes "e \<notin> {48, 49, 50, 51}"
  shows "e < 48 \<or> e > 51"
proof (rule ccontr)
  assume "\<not> (e < 48 \<or> e > 51)"
  then have "48 \<le> unat e" "unat e \<le> 51" by (simp_all add: word_le_nat_alt not_less)
  then have "unat e = 48 \<or> unat e = 49 \<or> unat e = 50 \<or> unat e = 51" by arith
  then have "e = 48 \<or> e = 49 \<or> e = 50 \<or> e = 51"
    by (auto simp: word_unat_eq_iff)
  with assms show False by simp
qed

section \<open>The claims\<close>

subsection \<open>C1: pacing and column accounting of the write path\<close>

text \<open>
  Claim C1 says that every byte other than the carriage return (\<open>0x0D\<close>) is
  written and accounted for. The byte that \<open>write\<close> skips is \<open>0x13\<close> (DC3), which
  is not the carriage return: for it nothing is sent, no \<open>d\<close> is computed, and the
  state stays as it is, where the claim has one byte time charged and the column or the
  previous character changed. For every other byte, the carriage return among them, the
  accounting is that of the claim: the byte handed to the stream is written and one byte
  time is charged to the local \<open>d\<close>; if that byte is a line feed or the column equals
  \<open>maxColumn\<close>, the settle time is added, \<open>(charHeight + lineSpacing) * dotFeedTime\<close>
  when the previous character was a newline and
  \<open>charHeight * dotPrintTime + lineSpacing * dotFeedTime\<close> otherwise, the column goes
  back to 0 and the previous character becomes newline; in every other case the column
  grows by 1 and the previous character becomes the byte written. The arithmetic on
  \<open>d\<close> is that of \<open>unsigned long\<close>. The \<open>DENMARK\<close> substitution never produces
  or removes a line feed.
\<close>

theorem write_drops_dc3:
  "(0x13 :: 8 word) \<noteq> ASCII_CR
   \<and> write_d cfg 0x13 s = (None, s)
   \<and> write_byte cfg 0x13 s = s
   \<and> (c \<noteq> 0x13 \<longrightarrow>
        out (write_byte cfg c s) = out s @ [written_byte cfg c]
      \<and> (written_byte cfg c = ASCII_LF \<longleftrightarrow> c = ASCII_LF)
      \<and> (if written_byte cfg c = ASCII_LF \<or> column s = maxColumn s
         then fst (write_d cfg c s) =
                Some (word_of_int BYTE_TIME +
                      (if prevByte s = ASCII_LF
                       then word_of_int (charHeight s + lineSpacing s) * dotFeedTime s
                       else word_of_int (charHeight s) * dotPrintTime s
                            + word_of_int (lineSpacing s) * dotFeedTime s))
              \<and> column (write_byte cfg c s) = 0
              \<and> prevByte (write_byte cfg c s) = ASCII_LF
         else fst (write_d cfg c s) = Some (word_of_int BYTE_TIME)
              \<and> column (write_byte cfg c s) = column s + 1
              \<and> prevByte (write_byte cfg c s) = written_byte cfg c))"
proof -
  have a: "(0x13 :: 8 word) \<noteq> ASCII_CR" by (simp add: ASCII_CR_def)
  have b: "write_d cfg 0x13 s = (None, s)" by (simp add: write_d_def)
  have c: "write_byte cfg 0x13 s = s" by (simp add: write_byte_def write_d_def)
  have lf: "written_byte cfg c = ASCII_LF \<longleftrightarrow> c = ASCII_LF"
    by (auto simp: written_byte_def denmark_remap_def ASCII_LF_def Let_def)
  have d: "out (write_byte cfg c s) = out s @ [written_byte cfg c]
      \<and> (written_byte cfg c = ASCII_LF \<longleftrightarrow> c = ASCII_LF)
      \<and> (if written_byte cfg c = ASCII_LF \<or> column s = maxColumn s
         then fst (write_d cfg c s) =
                Some (word_of_int BYTE_TIME +
                      (if prevByte s = ASCII_LF
                       then word_of_int (charHeight s + lineSpacing s) * dotFeedTime s
                       else word_of_int (charHeight s) * dotPrintTime s
                            + word_of_int (lineSpacing s) * dotFeedTime s))
              \<and> column (write_byte cfg c s) = 0
              \<and> prevByte (write_byte cfg c s) = ASCII_LF
         else fst (write_d cfg c s) = Some (word_of_int BYTE_TIME)
              \<and> column (write_byte cfg c s) = column s + 1
              \<and> prevByte (write_byte cfg c s) = written_byte cfg c)"
    if "c \<noteq> 0x13"
    unfolding lf using that
    by (auto simp: write_byte_def write_d_def ASCII_LF_def Let_def written_byte_def
          denmark_remap_def)
  from a b c d show ?thesis by blast
qed

text \<open>
  At the state after \<open>begin\<close>: the letter A costs one byte time (573 microseconds)
  and moves the column to 1; a line feed on the blank line costs 573 + (24 + 6) * 1; the
  byte \<open>0x13\<close> costs nothing and leaves output, column and previous character alone.
\<close>

theorem write_drops_dc3_witness:
  "(0x41 :: 8 word) \<noteq> 0x13
   \<and> out (write_byte sample_config 0x41 started) = out started @ [0x41]
   \<and> fst (write_d sample_config 0x41 started) = Some 573
   \<and> column (write_byte sample_config 0x41 started) = 1
   \<and> prevByte (write_byte sample_config 0x41 started) = 0x41
   \<and> fst (write_d sample_config 0x0A started) = Some 603
   \<and> column (write_byte sample_config 0x0A started) = 0
   \<and> fst (write_d sample_config 0x13 started) = None
   \<and> out (write_byte sample_config 0x13 started) = out started
   \<and> column (write_byte sample_config 0x13 started) = column started
   \<and> prevByte (write_byte sample_config 0x13 started) = prevByte started"
  using write_drops_dc3 [of sample_config started "0x41"]
    write_drops_dc3 [of sample_config started "0x0A"]
  by (simp add: written_byte_def sample_config_def started_eq ASCII_LF_def BYTE_TIME_value)

subsection \<open>C2: the chunked bitmap print\<close>




subsection \<open>C3: the column and the line width\<close>

text \<open>
  Claim C3, as amended. For every sequence of operations run from the state that
  \<open>reset\<close> leaves, after each operation the column is at least 0 and \<open>maxColumn\<close>
  is 16 or 32; and \<open>column \<le> maxColumn\<close> holds after each operation exactly when no
  step of the sequence is a \<open>tab\<close> issued with the column at \<open>maxColumn\<close> or an
  operation that narrows the line to less than the column reached. No step is of these
  kinds in a sequence without \<open>tab\<close> and without the operations that can narrow the
  line: \<open>setPrintMode\<close>, \<open>unsetPrintMode\<close> with a mask that leaves the double-width
  flag, the flag toggles that call them other than \<open>doubleWidthOff\<close>, and
  \<open>setSize\<close> for the large size. The statement is about every sequence, so what it
  says of the last state holds after each operation.
\<close>

theorem column_stays_in_range:
  assumes "run cfg ops (reset cfg s0) = Some s"
  shows "0 \<le> column s \<and> maxColumn s \<in> {16, 32}
       \<and> (in_range_throughout cfg ops (reset cfg s0) \<longleftrightarrow> never_overruns cfg ops (reset cfg s0))
       \<and> (never_overruns cfg ops (reset cfg s0) \<longrightarrow> column s \<le> maxColumn s)
       \<and> ((\<forall>x \<in> set ops. \<not> is_tab x \<and> \<not> can_narrow cfg x)
            \<longrightarrow> never_overruns cfg ops (reset cfg s0))"
proof -
  have "never_overruns cfg ops (reset cfg s0)"
    if "\<forall>x \<in> set ops. \<not> is_tab x \<and> \<not> can_narrow cfg x"
    using no_narrowing_never_overruns [OF assms _ that] by simp
  with run_column [OF assms] run_in_range [OF assms] show ?thesis by simp
qed

text \<open>
  Double width, a letter, a tab, normal width and a tab again: no step overruns, and
  the column stays within the line. A letter, a feed, normal width and a letter: no
  operation is a \<open>tab\<close> or can narrow the line.
\<close>

theorem column_stays_in_range_witness:
  "run sample_config [DoubleWidthOn, Write 0x41, Tab, DoubleWidthOff, Tab]
     (reset sample_config zeroed) \<noteq> None
   \<and> never_overruns sample_config [DoubleWidthOn, Write 0x41, Tab, DoubleWidthOff, Tab]
       (reset sample_config zeroed)
   \<and> in_range_throughout sample_config [DoubleWidthOn, Write 0x41, Tab, DoubleWidthOff, Tab]
       (reset sample_config zeroed)
   \<and> column (the (run sample_config [DoubleWidthOn, Write 0x41, Tab, DoubleWidthOff, Tab]
        (reset sample_config zeroed)))
     \<le> maxColumn (the (run sample_config [DoubleWidthOn, Write 0x41, Tab, DoubleWidthOff, Tab]
        (reset sample_config zeroed)))
   \<and> run sample_config [Write 0x41, Feed 1, DoubleWidthOff, Write 0x43]
       (reset sample_config zeroed) \<noteq> None
   \<and> \<not> is_tab (Write 0x41) \<and> \<not> can_narrow sample_config (Write 0x41)
   \<and> \<not> is_tab (Feed 1) \<and> \<not> can_narrow sample_config (Feed 1)
   \<and> \<not> is_tab DoubleWidthOff \<and> \<not> can_narrow sample_config DoubleWidthOff
   \<and> \<not> is_tab (Write 0x43) \<and> \<not> can_narrow sample_config (Write 0x43)
   \<and> in_range_throughout sample_config [Write 0x41, Feed 1, DoubleWidthOff, Write 0x43]
       (reset sample_config zeroed)"
proof -
  obtain s where r:
    "run sample_config [DoubleWidthOn, Write 0x41, Tab, DoubleWidthOff, Tab]
      (reset sample_config zeroed) = Some s"
    by simp
  have n: "never_overruns sample_config [DoubleWidthOn, Write 0x41, Tab, DoubleWidthOff, Tab]
      (reset sample_config zeroed)"
    by (simp add: overruns_def doubleWidthOn_def doubleWidthOff_def zeroed_def mask_defs
          write_byte_def write_d_def written_byte_def sample_config_def tab_def reset_def
          setPrintMode_def unsetPrintMode_def adjust_size_def writePrintMode_def
          writeBytes_def Let_def)
  obtain s' where r':
    "run sample_config [Write 0x41, Feed 1, DoubleWidthOff, Write 0x43]
      (reset sample_config zeroed) = Some s'"
    by simp
  have q: "\<forall>x \<in> set [Write 0x41, Feed 1, DoubleWidthOff, Write 0x43].
      \<not> is_tab x \<and> \<not> can_narrow sample_config x"
    by simp
  from column_stays_in_range [OF r] n have
    i1: "in_range_throughout sample_config [DoubleWidthOn, Write 0x41, Tab, DoubleWidthOff, Tab]
       (reset sample_config zeroed)" and
    c: "column s \<le> maxColumn s"
    by blast+
  from column_stays_in_range [OF r'] q have
    i2: "in_range_throughout sample_config [Write 0x41, Feed 1, DoubleWidthOff, Write 0x43]
       (reset sample_config zeroed)"
    by blast
  have e1: "run sample_config [DoubleWidthOn, Write 0x41, Tab, DoubleWidthOff, Tab]
      (reset sample_config zeroed) \<noteq> None"
    unfolding r by simp
  have e2: "column (the (run sample_config [DoubleWidthOn, Write 0x41, Tab, DoubleWidthOff, Tab]
        (reset sample_config zeroed)))
     \<le> maxColumn (the (run sample_config [DoubleWidthOn, Write 0x41, Tab, DoubleWidthOff, Tab]
        (reset sample_config zeroed)))"
    unfolding r using c by simp
  have e3: "run sample_config [Write 0x41, Feed 1, DoubleWidthOff, Write 0x43]
      (reset sample_config zeroed) \<noteq> None"
    unfolding r' by simp
  have q': "\<not> is_tab (Write 0x41) \<and> \<not> can_narrow sample_config (Write 0x41)
   \<and> \<not> is_tab (Feed 1) \<and> \<not> can_narrow sample_config (Feed 1)
   \<and> \<not> is_tab DoubleWidthOff \<and> \<not> can_narrow sample_config DoubleWidthOff
   \<and> \<not> is_tab (Write 0x43) \<and> \<not> can_narrow sample_config (Write 0x43)"
    by simp
  from e1 n i1 e2 e3 q' i2 show ?thesis by blast
qed

text \<open>
  With \<open>tab\<close> the claim as first stated fails: nine tabs after \<open>reset\<close> put the
  column at 36 on a line of 32; five tabs and then double width put it at 20 on a line
  of 16. \<open>reset\<close> widens the line and keeps the double-width flag, so that after
  double width, \<open>reset\<close> and five tabs, bold narrows the line to 16 under a column
  of 20.
\<close>

theorem column_overrun_counterexample:
  "run sample_config [Tab, Tab, Tab, Tab, Tab, Tab, Tab, Tab, Tab] (reset sample_config zeroed)
     \<noteq> None
   \<and> column (the (run sample_config [Tab, Tab, Tab, Tab, Tab, Tab, Tab, Tab, Tab]
        (reset sample_config zeroed))) = 36
   \<and> maxColumn (the (run sample_config [Tab, Tab, Tab, Tab, Tab, Tab, Tab, Tab, Tab]
        (reset sample_config zeroed))) = 32
   \<and> \<not> column (the (run sample_config [Tab, Tab, Tab, Tab, Tab, Tab, Tab, Tab, Tab]
          (reset sample_config zeroed)))
       \<le> maxColumn (the (run sample_config [Tab, Tab, Tab, Tab, Tab, Tab, Tab, Tab, Tab]
          (reset sample_config zeroed)))
   \<and> run sample_config [Tab, Tab, Tab, Tab, Tab, DoubleWidthOn] (reset sample_config zeroed)
     \<noteq> None
   \<and> column (the (run sample_config [Tab, Tab, Tab, Tab, Tab, DoubleWidthOn]
        (reset sample_config zeroed))) = 20
   \<and> maxColumn (the (run sample_config [Tab, Tab, Tab, Tab, Tab, DoubleWidthOn]
        (reset sample_config zeroed))) = 16
   \<and> \<not> column (the (run sample_config [Tab, Tab, Tab, Tab, Tab, DoubleWidthOn]
          (reset sample_config zeroed)))
       \<le> maxColumn (the (run sample_config [Tab, Tab, Tab, Tab, Tab, DoubleWidthOn]
          (reset sample_config zeroed)))
   \<and> run sample_config [DoubleWidthOn, Reset, Tab, Tab, Tab, Tab, Tab, BoldOn]
       (reset sample_config zeroed) \<noteq> None
   \<and> column (the (run sample_config [DoubleWidthOn, Reset, Tab, Tab, Tab, Tab, Tab, BoldOn]
        (reset sample_config zeroed))) = 20
   \<and> maxColumn (the (run sample_config [DoubleWidthOn, Reset, Tab, Tab, Tab, Tab, Tab, BoldOn]
        (reset sample_config zeroed))) = 16"
  by (simp add: doubleWidthOn_def boldOn_def zeroed_def mask_defs)

subsection \<open>C4: flags and geometry\<close>

text \<open>
  Claim C4, as amended. After \<open>setPrintMode\<close> and after \<open>unsetPrintMode\<close> (so
  after every flag toggle) \<open>charHeight\<close> is 48 exactly when the double-height flag is
  set (24 otherwise) and \<open>maxColumn\<close> is 16 exactly when the double-width flag is set
  (32 otherwise); each sets or clears just the flags of its mask. From a state with this
  agreement, setting flags that are set or clearing flags that are clear changes nothing
  but the bytes sent, and every sequence of operations without \<open>normal\<close>,
  \<open>reset\<close>, \<open>setSize\<close>, \<open>setDefault\<close> and \<open>begin\<close> keeps the agreement.
  \<open>setSize\<close> sets height and width from its argument alone and leaves the flags as
  they are.
\<close>

theorem flags_and_geometry:
  "consistent (setPrintMode m s) \<and> consistent (unsetPrintMode m s)
   \<and> printMode (setPrintMode m s) = printMode s OR m
   \<and> printMode (unsetPrintMode m s) = printMode s AND NOT m
   \<and> (consistent s \<and> printMode s AND m = m \<longrightarrow> setPrintMode m s = writePrintMode s)
   \<and> (consistent s \<and> printMode s AND m = 0 \<longrightarrow> unsetPrintMode m s = writePrintMode s)
   \<and> (consistent s \<and> (\<forall>x \<in> set ops. \<not> decouples x) \<and> run cfg ops s = Some s'
        \<longrightarrow> consistent s')
   \<and> printMode (setSize v s) = printMode s
   \<and> charHeight (setSize v s) =
        (if toupper v = lit CHR ''M'' \<or> toupper v = lit CHR ''L'' then 48 else 24)
   \<and> maxColumn (setSize v s) = (if toupper v = lit CHR ''L'' then 16 else 32)"
proof -
  have a: "consistent (setPrintMode m s)" "consistent (unsetPrintMode m s)"
    by (simp_all add: consistent_def)
  have b: "setPrintMode m s = writePrintMode s" if "consistent s" "printMode s AND m = m"
    using that or_absorb_word [OF that(2)]
    by (simp add: setPrintMode_def adjust_size_def writePrintMode_def writeBytes_def consistent_def)
  have c: "unsetPrintMode m s = writePrintMode s" if "consistent s" "printMode s AND m = 0"
    using that and_not_absorb_word [OF that(2)]
    by (simp add: unsetPrintMode_def adjust_size_def writePrintMode_def writeBytes_def consistent_def)
  have d: "consistent s'"
    if "consistent s" "\<forall>x \<in> set ops. \<not> decouples x" "run cfg ops s = Some s'"
    using run_consistent [OF that(3,1,2)] .
  from a b c d show ?thesis by simp
qed

theorem flags_and_geometry_witness:
  "consistent started \<and> printMode started AND BOLD_MASK = 0
   \<and> unsetPrintMode BOLD_MASK started = writePrintMode started
   \<and> consistent (setPrintMode DOUBLE_HEIGHT_MASK started)
   \<and> consistent (the (run sample_config [DoubleWidthOn, Write 0x41, BoldOn] started))"
proof -
  have c: "consistent started" by (simp add: consistent_def started_eq mask_defs)
  have z: "printMode started AND BOLD_MASK = 0" by (simp add: started_eq)
  obtain s' where r: "run sample_config [DoubleWidthOn, Write 0x41, BoldOn] started = Some s'"
    by simp
  have n: "\<forall>x \<in> set [DoubleWidthOn, Write 0x41, BoldOn]. \<not> decouples x" by simp
  note t = flags_and_geometry [of BOLD_MASK started "[DoubleWidthOn, Write 0x41, BoldOn]"
      sample_config s']
  note t' = flags_and_geometry [of DOUBLE_HEIGHT_MASK started]
  have "unsetPrintMode BOLD_MASK started = writePrintMode started" using t c z by blast
  moreover have "consistent s'" using t c n r by blast
  moreover have "consistent (setPrintMode DOUBLE_HEIGHT_MASK started)" using t' by blast
  ultimately show ?thesis using c z r by simp
qed

text \<open>
  The claim as first stated has \<open>setSize\<close> keep the agreement. After \<open>begin\<close>
  the state agrees; the large size then makes the height 48 and the width 16 with both
  flags clear.
\<close>

theorem flags_and_geometry_counterexample:
  "consistent started \<and> \<not> consistent (setSize (lit CHR ''L'') started)"
  by (simp add: consistent_def started_eq toupper_def mask_defs)

text \<open>
  \<open>normal\<close> clears the flags and keeps the geometry, \<open>reset\<close> restores the
  geometry and keeps the flags: after double height, neither leaves an agreeing state.
\<close>

lemma normal_and_reset_decouple:
  "consistent (doubleHeightOn started)
   \<and> \<not> consistent (normal (doubleHeightOn started))
   \<and> \<not> consistent (reset sample_config (doubleHeightOn started))"
  by (simp add: consistent_def doubleHeightOn_def started_eq mask_defs)

subsection \<open>C5: the carriage return\<close>

text \<open>
  Claim C5 says that \<open>write\<close> drops a carriage return (\<open>0x0D\<close>) and leaves
  the state alone. The source compares with \<open>0x13\<close> (decimal 19, DC3) under the
  comment "Strip carriage returns": at the state after \<open>begin\<close> a carriage return is
  sent to the stream, the column becomes 1 and the previous character \<open>0x0D\<close>, and the
  byte that is dropped is \<open>0x13\<close>.
\<close>

theorem carriage_return_is_written:
  "out (write_byte cfg ASCII_CR s) = out s @ [0x0D]
   \<and> write_byte cfg 0x13 s = s
   \<and> out (write_byte sample_config ASCII_CR started) = out started @ [0x0D]
   \<and> column (write_byte sample_config ASCII_CR started) = 1
   \<and> prevByte (write_byte sample_config ASCII_CR started) = 0x0D"
proof -
  have a: "out (write_byte cfg ASCII_CR s) = out s @ [0x0D]"
    by (simp add: write_byte_def write_d_def written_byte_def denmark_remap_def ASCII_CR_def
          Let_def)
  have b: "write_byte cfg 0x13 s = s"
    by (simp add: write_byte_def write_d_def)
  have c: "out (write_byte sample_config ASCII_CR started) = out started @ [0x0D]
     \<and> column (write_byte sample_config ASCII_CR started) = 1
     \<and> prevByte (write_byte sample_config ASCII_CR started) = 0x0D"
    by (simp add: write_byte_def write_d_def written_byte_def sample_config_def started_eq
          ASCII_CR_def Let_def)
  from a b c show ?thesis by simp
qed

subsection \<open>C6: silent clamping\<close>

text \<open>
  Claim C6. \<open>underlineOn\<close> with a weight above 2 is \<open>underlineOn 2\<close>;
  \<open>setBarcodeHeight 0\<close> is \<open>setBarcodeHeight 1\<close>, bytes and state; for an error
  correction argument outside 48..51, \<open>printQRcode\<close> is \<open>printQRcode\<close> with 48, and
  the error correction command it sends (the eight bytes from offset 17 of its output)
  carries 48. The operations are total functions of the state: nothing is raised or
  returned.
\<close>

theorem silent_clamping:
  "(w > 2 \<longrightarrow> underlineOn w s = underlineOn 2 s)
   \<and> setBarcodeHeight 0 s = setBarcodeHeight 1 s
   \<and> (e \<notin> {48, 49, 50, 51} \<longrightarrow>
        printQRcode str e ms m t s = printQRcode str 48 ms m t s
        \<and> take 8 (drop (length (out s) + 17) (out (printQRcode str e ms m t s)))
            = [ASCII_GS, lit CHR ''('', lit CHR ''k'', 3, 0, 49, 69, 48])"
proof -
  have a: "underlineOn w s = underlineOn 2 s" if "w > 2"
    using that by (simp add: underlineOn_def)
  have b: "setBarcodeHeight 0 s = setBarcodeHeight 1 s"
    by (simp add: setBarcodeHeight_def)
  have c: "printQRcode str e ms m t s = printQRcode str 48 ms m t s" if "e \<notin> {48, 49, 50, 51}"
    using outside_48_51 [OF that] by (simp add: printQRcode_def)
  have d: "take 8 (drop (length (out s) + 17) (out (printQRcode str 48 ms m t s)))
            = [ASCII_GS, lit CHR ''('', lit CHR ''k'', 3, 0, 49, 69, 48]"
    by (simp add: printQRcode_def reprintQRcode_def writeBytes_def Let_def)
  from a b c d show ?thesis by simp
qed

theorem silent_clamping_witness:
  "(3 :: 8 word) > 2 \<and> underlineOn 3 started = underlineOn 2 started
   \<and> (0 :: 8 word) \<notin> {48, 49, 50, 51}
   \<and> printQRcode (map lit ''hi'') 0 3 50 0 started = printQRcode (map lit ''hi'') 48 3 50 0 started"
  using silent_clamping [of 3 started 0 "map lit ''hi''" 3 50 0] by simp

subsection \<open>C7: the line height\<close>

text \<open>
  Claim C7 says that \<open>setLineHeight\<close> clamps its argument to 24..255. The source
  only raises values below 24; the \<open>int\<close> is then narrowed to the \<open>uint8_t\<close>
  parameter of \<open>writeBytes\<close>. For 256 the byte sent is 0 and \<open>lineSpacing\<close>
  becomes 232, where the claim has 255 and 231.
\<close>

theorem line_height_not_clamped_above:
  "out (setLineHeight 256 s) = out s @ [ASCII_ESC, lit CHR ''3'', 0]
   \<and> lineSpacing (setLineHeight 256 s) = 232"
  by (simp add: setLineHeight_def writeBytes_def)

subsection \<open>C8: the paper status poll\<close>

text \<open>
  Claim C8. \<open>hasPaper\<close> sends the status request and nothing else; it calls
  \<open>available\<close> at most 10 times; it returns true exactly when some poll below 10
  finds a byte, no earlier poll did, and bit \<open>0b00000100\<close> of that byte is clear. When
  the first byte is found at poll \<open>i\<close>, it has polled \<open>i + 1\<close> times with one
  \<open>delay(100)\<close> after each of the \<open>i\<close> polls that found nothing. When no poll
  finds a byte it returns false after exactly 10 polls and 10 delays of 100 ms.
\<close>

theorem paper_status_poll:
  "out (snd (hasPaper rx s)) = out s @ [0x10, 0x04, 4]
   \<and> hasPaper rx s = (fst (hasPaper_polls rx s), snd (snd (hasPaper_polls rx s)))
   \<and> fst (snd (hasPaper_polls rx s)) \<le> 10
   \<and> (fst (hasPaper rx s) \<longleftrightarrow>
        (\<exists>i<10. \<exists>b. rx i = Some b \<and> (\<forall>k<i. rx k = None) \<and> b AND 4 = 0))
   \<and> (\<forall>i<10. \<forall>b. rx i = Some b \<and> (\<forall>k<i. rx k = None) \<longrightarrow>
         fst (snd (hasPaper_polls rx s)) = i + 1
         \<and> waited (snd (hasPaper rx s)) = waited s + 100 * i)
   \<and> ((\<forall>i<10. rx i = None) \<longrightarrow>
         \<not> fst (hasPaper rx s)
         \<and> fst (snd (hasPaper_polls rx s)) = 10
         \<and> waited (snd (hasPaper rx s)) = waited s + 1000)"
proof (cases "\<exists>i<10. rx i \<noteq> None")
  case True
  then obtain j b where j: "j < 10" "rx j = Some b" "\<forall>k<j. rx k = None"
    by (rule first_available)
  note r = hasPaper_polls_some [OF j, of s]
  have h: "hasPaper rx s = (b AND 4 = 0, (writeBytes [0x10, 0x04, 4] s)\<lparr>waited := waited s + 100 * j\<rparr>)"
    by (simp add: hasPaper_def r)
  have c1: "out (snd (hasPaper rx s)) = out s @ [0x10, 0x04, 4]"
    by (simp add: h writeBytes_def)
  have c2: "hasPaper rx s = (fst (hasPaper_polls rx s), snd (snd (hasPaper_polls rx s)))"
    by (simp add: h r)
  have c3: "fst (snd (hasPaper_polls rx s)) \<le> 10"
    using j(1) by (simp add: r)
  have c4: "fst (hasPaper rx s) \<longleftrightarrow>
        (\<exists>i<10. \<exists>b. rx i = Some b \<and> (\<forall>k<i. rx k = None) \<and> b AND 4 = 0)"
  proof
    assume "fst (hasPaper rx s)"
    then have "b AND 4 = 0" by (simp add: h)
    with j show "\<exists>i<10. \<exists>b. rx i = Some b \<and> (\<forall>k<i. rx k = None) \<and> b AND 4 = 0"
      by blast
  next
    assume "\<exists>i<10. \<exists>b. rx i = Some b \<and> (\<forall>k<i. rx k = None) \<and> b AND 4 = 0"
    then obtain i b' where i: "rx i = Some b'" "\<forall>k<i. rx k = None" "b' AND 4 = 0"
      by blast
    from first_unique [OF j(2,3) i(1,2)] i(3) have "b AND 4 = 0" by simp
    then show "fst (hasPaper rx s)" by (simp add: h)
  qed
  have c5: "\<forall>i<10. \<forall>b. rx i = Some b \<and> (\<forall>k<i. rx k = None) \<longrightarrow>
         fst (snd (hasPaper_polls rx s)) = i + 1
         \<and> waited (snd (hasPaper rx s)) = waited s + 100 * i"
  proof (intro allI impI)
    fix i b'
    assume "i < 10" and a: "rx i = Some b' \<and> (\<forall>k<i. rx k = None)"
    then have "i = j" using first_unique [OF j(2,3), of i b'] by blast
    then show "fst (snd (hasPaper_polls rx s)) = i + 1
         \<and> waited (snd (hasPaper rx s)) = waited s + 100 * i"
      by (simp add: h r)
  qed
  have c6: "(\<forall>i<10. rx i = None) \<longrightarrow>
         \<not> fst (hasPaper rx s)
         \<and> fst (snd (hasPaper_polls rx s)) = 10
         \<and> waited (snd (hasPaper rx s)) = waited s + 1000"
    using j(1,2) by auto
  from c1 c2 c3 c4 c5 c6 show ?thesis by blast
next
  case False
  then have none: "\<forall>i<10. rx i = None" by auto
  note r = hasPaper_polls_none [OF none, of s]
  have h: "hasPaper rx s = (False, (writeBytes [0x10, 0x04, 4] s)\<lparr>waited := waited s + 1000\<rparr>)"
    by (simp add: hasPaper_def r)
  have c1: "out (snd (hasPaper rx s)) = out s @ [0x10, 0x04, 4]"
    by (simp add: h writeBytes_def)
  have c2: "hasPaper rx s = (fst (hasPaper_polls rx s), snd (snd (hasPaper_polls rx s)))"
    by (simp add: h r)
  have c3: "fst (snd (hasPaper_polls rx s)) \<le> 10"
    by (simp add: r)
  have c4: "fst (hasPaper rx s) \<longleftrightarrow>
        (\<exists>i<10. \<exists>b. rx i = Some b \<and> (\<forall>k<i. rx k = None) \<and> b AND 4 = 0)"
    using none by (simp add: h)
  have c5: "\<forall>i<10. \<forall>b. rx i = Some b \<and> (\<forall>k<i. rx k = None) \<longrightarrow>
         fst (snd (hasPaper_polls rx s)) = i + 1
         \<and> waited (snd (hasPaper rx s)) = waited s + 100 * i"
    using none by simp
  have c6: "(\<forall>i<10. rx i = None) \<longrightarrow>
         \<not> fst (hasPaper rx s)
         \<and> fst (snd (hasPaper_polls rx s)) = 10
         \<and> waited (snd (hasPaper rx s)) = waited s + 1000"
    by (simp add: h r)
  from c1 c2 c3 c4 c5 c6 show ?thesis by blast
qed

text \<open>
  A byte 0 that arrives at the fourth poll: paper, 4 polls, 300 ms waited. A channel
  that stays silent: no paper, 10 polls.
\<close>

theorem paper_status_poll_witness:
  "fst (hasPaper (byte_at_poll 3 0) started)
   \<and> fst (snd (hasPaper_polls (byte_at_poll 3 0) started)) = 4
   \<and> waited (snd (hasPaper (byte_at_poll 3 0) started)) = waited started + 300
   \<and> \<not> fst (hasPaper silent started)
   \<and> fst (snd (hasPaper_polls silent started)) = 10"
proof -
  have a: "(3::nat) < 10 \<and> byte_at_poll 3 0 3 = Some 0 \<and> (\<forall>k<3. byte_at_poll 3 0 k = None)
           \<and> (0 :: 8 word) AND 4 = 0"
    by (simp add: byte_at_poll_def)
  have b: "\<forall>i<10. silent i = None" by (simp add: silent_def)
  note t1 = paper_status_poll [of "byte_at_poll 3 0" started]
  note t2 = paper_status_poll [of silent started]
  have "fst (hasPaper (byte_at_poll 3 0) started)" using t1 a by blast
  moreover have "fst (snd (hasPaper_polls (byte_at_poll 3 0) started)) = 3 + 1
     \<and> waited (snd (hasPaper (byte_at_poll 3 0) started)) = waited started + 100 * 3"
    using t1 a by blast
  moreover have "\<not> fst (hasPaper silent started) \<and> fst (snd (hasPaper_polls silent started)) = 10"
    using t2 b by blast
  ultimately show ?thesis by simp
qed

subsection \<open>C9: sleep\<close>

text \<open>
  Claim C9. \<open>sleep\<close> is \<open>sleepAfter 1\<close>: the seconds value it sends is 1 (low
  byte 1, and on firmware from 264 on a high byte 0), never 0.
\<close>

theorem sleep_is_one_second:
  "sleep cfg s = sleepAfter cfg 1 s
   \<and> out (sleep cfg s) =
       out s @ (if PRINTER_FIRMWARE cfg \<ge> 264 then [ASCII_ESC, lit CHR ''8'', 1, 0]
                else [ASCII_ESC, lit CHR ''8'', 1])"
  by (simp add: sleep_def sleepAfter_def writeBytes_def)

theorem sleep_is_one_second_witness:
  "out (sleep sample_config started) = out started @ [27, 56, 1, 0]"
  using sleep_is_one_second [of sample_config started, THEN conjunct2]
  by (simp add: sample_config_def ASCII_ESC_def)

subsection \<open>C10: justify\<close>

text \<open>
  Claim C10. For every character whose upper-case form is none of L, C and R,
  \<open>justify\<close> sends the left-justification command, the bytes of \<open>justify 'L'\<close>.
\<close>

theorem justify_defaults_to_left:
  assumes "toupper c \<notin> {lit CHR ''L'', lit CHR ''C'', lit CHR ''R''}"
  shows "justify c s = justify (lit CHR ''L'') s
       \<and> out (justify c s) = out s @ [ASCII_ESC, lit CHR ''a'', 0]"
  using assms by (simp add: justify_def toupper_def writeBytes_def)

theorem justify_defaults_to_left_witness:
  "toupper (lit CHR ''x'') \<notin> {lit CHR ''L'', lit CHR ''C'', lit CHR ''R''}
   \<and> justify (lit CHR ''x'') started = justify (lit CHR ''L'') started"
proof -
  have h: "toupper (lit CHR ''x'') \<notin> {lit CHR ''L'', lit CHR ''C'', lit CHR ''R''}"
    by (simp add: toupper_def)
  from justify_defaults_to_left [OF h, of started] h show ?thesis by simp
qed

end
